theory Spec2Isabelle
  imports Main
begin

section \<open>Data model of \<open>server/pkg/instance.go\<close>\<close>

text \<open>
  Go errors are modelled by their message. A method of \<open>Instance\<close> returns either
  \<open>nil\<close> (\<open>OK\<close>), an error (\<open>Err\<close>), or does not return because a nil pointer was
  dereferenced (\<open>Panic\<close>).
\<close>

type_synonym goerror = string

datatype outcome = OK | Err goerror | Panic

text \<open>
  \<open>LlamaServerOptions\<close> is declared in another file of the package; this file reads its
  fields \<open>Host\<close> and \<open>Port\<close> only (in \<open>GetProxy\<close>), so the record holds these two.
\<close>

record LlamaServerOptions =
  Host :: string
  Port :: int

text \<open>The pointer fields of \<open>CreateInstanceOptions\<close> are options: \<open>None\<close> is \<open>nil\<close>.\<close>

record CreateInstanceOptions =
  AutoRestart :: "bool option"
  MaxRestarts :: "int option"
  RestartDelay :: "int option"
  Llama :: LlamaServerOptions

text \<open>
  \<open>InstancesConfig\<close> is declared in another file as well; these are the four fields
  this file reads.
\<close>

record InstancesConfig =
  LogDirectory :: string
  DefaultAutoRestart :: bool
  DefaultMaxRestarts :: int
  DefaultRestartDelay :: int

text \<open>Every \<open>log.Printf\<close>/\<open>log.Println\<close> of the file, with its arguments.\<close>

datatype logmsg =
    MaxRestartsLimited string int
  | MaxRestartsNegative string int
  | RestartDelayTooLow string int
  | RestartDelayTooHigh string int
  | RestartDelayNegative string int
  | NilOptionsWarning string
  | CancelledPendingRestart string
  | Crashed string goerror
  | ExitedCleanly string
  | OptionsAreNil string
  | AutoRestartDisabled string
  | MaxRestartsIsNil string
  | RestartDelayIsNil string
  | ExceededMaxRestarts string int
  | AutoRestarting string int int int
  | RestartCancelled string
  | FailedToRestart string goerror
  | SuccessfullyRestarted string

text \<open>
  The part of the process and of the operating system that the methods act on:
  \<^item> \<open>files\<close>: the file system, a map from path to content;
  \<^item> \<open>logged\<close>: what was written to the process log;
  \<^item> \<open>cancelled\<close>: the restart contexts whose cancel function has been called;
  \<^item> \<open>nextCtx\<close>: the number of restart contexts created so far (the next fresh one);
  \<^item> \<open>sleepers\<close>: the \<open>handleRestart\<close> goroutines that have released the lock and wait
    in their \<open>select\<close>, each named by its restart context;
  \<^item> \<open>starting\<close>: the \<open>handleRestart\<close> goroutines that have left their \<open>select\<close> through
    the timer and have not yet taken the lock inside \<open>Start\<close>;
  \<^item> \<open>clearing\<close>: the number of \<open>handleRestart\<close> goroutines whose \<open>Start\<close> succeeded and
    that have not yet taken the lock again to clear \<open>restartCancel\<close>;
  \<^item> \<open>monitors\<close>: the children whose \<open>monitorProcess\<close> goroutine has not yet taken the lock;
  \<^item> \<open>nextPid\<close>: the number of children spawned so far (the next fresh child);
  \<^item> \<open>killed\<close>: the children whose process context has been cancelled.
\<close>

record Env =
  files :: "string \<Rightarrow> string option"
  logged :: "logmsg list"
  cancelled :: "nat set"
  nextCtx :: nat
  sleepers :: "nat list"
  starting :: "nat list"
  clearing :: nat
  monitors :: "nat list"
  nextPid :: nat
  killed :: "nat set"

text \<open>
  The struct \<open>Instance\<close>, on top of the environment. \<open>logFile\<close> holds the path of the open
  file; \<open>cmd\<close> and \<open>cancel\<close> hold the child they belong to; \<open>stdout\<close> and \<open>stderr\<close> hold
  whether the pipe is still open; \<open>proxy\<close> holds the target URL of the reverse proxy;
  \<open>restartCancel\<close> holds the restart context it cancels. The mutex is not a field: each
  function below is one critical section. Go's \<open>int\<close> is modelled by \<open>int\<close>: the only
  arithmetic on it is \<open>restarts++\<close> under \<open>restarts < maxRestarts\<close> and
  \<open>len(lines) - num_lines\<close> with \<open>num_lines > 0\<close>, neither of which can wrap.
\<close>

record Instance = Env +
  Name :: string
  options :: "CreateInstanceOptions option"
  globalSettings :: "InstancesConfig option"
  Running :: bool
  logFile :: "string option"
  cmd :: "nat option"
  cancel :: "nat option"
  stdout :: "bool option"
  stderr :: "bool option"
  restarts :: int
  proxy :: "string option"
  restartCancel :: "nat option"

section \<open>Construction and options\<close>

definition copyMaxRestarts :: "string \<Rightarrow> int option \<Rightarrow> int option \<times> logmsg list" where
  "copyMaxRestarts name m =
     (case m of
        None \<Rightarrow> (None, [])
      | Some maxRestarts \<Rightarrow>
          if maxRestarts > 100 then (Some 100, [MaxRestartsLimited name maxRestarts])
          else if maxRestarts < 0 then (Some 0, [MaxRestartsNegative name maxRestarts])
          else (Some maxRestarts, []))"

definition copyRestartDelay :: "string \<Rightarrow> int option \<Rightarrow> int option \<times> logmsg list" where
  "copyRestartDelay name d =
     (case d of
        None \<Rightarrow> (None, [])
      | Some restartDelay \<Rightarrow>
          if restartDelay < 1 then (Some 5, [RestartDelayTooLow name restartDelay])
          else if restartDelay > 300 then (Some 300, [RestartDelayTooHigh name restartDelay])
          else (Some restartDelay, []))"

text \<open>
  Lines 60-92 of \<open>NewInstance\<close>: the copy of the caller's options, with the messages logged
  on the way. With \<open>options == nil\<close> the copy is the zero value.
\<close>

definition copyOptions ::
  "string \<Rightarrow> CreateInstanceOptions option \<Rightarrow> CreateInstanceOptions \<times> logmsg list" where
  "copyOptions name opts =
     (case opts of
        None \<Rightarrow>
          (\<lparr>AutoRestart = None, MaxRestarts = None, RestartDelay = None,
            Llama = \<lparr>Host = [], Port = 0\<rparr>\<rparr>, [])
      | Some p \<Rightarrow>
          (let (m, l1) = copyMaxRestarts name (MaxRestarts p);
               (d, l2) = copyRestartDelay name (RestartDelay p)
           in (\<lparr>AutoRestart = AutoRestart p, MaxRestarts = m, RestartDelay = d,
                Llama = Llama p\<rparr>, l1 @ l2)))"

text \<open>
  Lines 94-106: a field still \<open>nil\<close> takes the default of the global settings; reading the
  default through a nil \<open>globalSettings\<close> panics (\<open>None\<close>).
\<close>

definition withDefault :: "'a option \<Rightarrow> InstancesConfig option \<Rightarrow> (InstancesConfig \<Rightarrow> 'a) \<Rightarrow> 'a option" where
  "withDefault v gs dflt =
     (case v of Some x \<Rightarrow> Some x
      | None \<Rightarrow> (case gs of None \<Rightarrow> None | Some g \<Rightarrow> Some (dflt g)))"

definition NewInstance ::
  "string \<Rightarrow> InstancesConfig option \<Rightarrow> CreateInstanceOptions option \<Rightarrow> Env \<Rightarrow> Instance option" where
  "NewInstance name gs opts w =
     (let (c, msgs) = copyOptions name opts in
      case withDefault (AutoRestart c) gs DefaultAutoRestart of
        None \<Rightarrow> None
      | Some a \<Rightarrow>
         (case withDefault (MaxRestarts c) gs DefaultMaxRestarts of
            None \<Rightarrow> None
          | Some m \<Rightarrow>
             (case withDefault (RestartDelay c) gs DefaultRestartDelay of
                None \<Rightarrow> None
              | Some d \<Rightarrow>
                 Some \<lparr>files = files w, logged = logged w @ msgs, cancelled = cancelled w,
                       nextCtx = nextCtx w, sleepers = sleepers w, starting = starting w,
                       clearing = clearing w,
                       monitors = monitors w, nextPid = nextPid w, killed = killed w,
                       Name = name,
                       options = Some \<lparr>AutoRestart = Some a, MaxRestarts = Some m,
                                       RestartDelay = Some d, Llama = Llama c\<rparr>,
                       globalSettings = gs, Running = False, logFile = None, cmd = None,
                       cancel = None, stdout = None, stderr = None, restarts = 0,
                       proxy = None, restartCancel = None\<rparr>)))"

definition GetOptions :: "Instance \<Rightarrow> CreateInstanceOptions option" where
  "GetOptions s = options s"

text \<open>\<open>SetOptions\<close>, lines 150-179: nothing is returned, the instance is updated.\<close>

definition SetOptions :: "CreateInstanceOptions option \<Rightarrow> Instance \<Rightarrow> Instance" where
  "SetOptions new s =
     (case new of
        None \<Rightarrow> s\<lparr>logged := logged s @ [NilOptionsWarning (Name s)]\<rparr>
      | Some p \<Rightarrow>
          (let optionsCopy =
                 \<lparr>AutoRestart = (case AutoRestart p of None \<Rightarrow> None | Some autoRestart \<Rightarrow> Some autoRestart),
                  MaxRestarts = (case MaxRestarts p of None \<Rightarrow> None | Some maxRestarts \<Rightarrow> Some maxRestarts),
                  RestartDelay = (case RestartDelay p of None \<Rightarrow> None | Some restartDelay \<Rightarrow> Some restartDelay),
                  Llama = Llama p\<rparr>
           in s\<lparr>options := Some optionsCopy, proxy := None\<rparr>))"

text \<open>
  \<open>UnmarshalJSON\<close>, lines 495-534. Its argument is what \<open>json.Unmarshal\<close> made of the bytes:
  an error, or the decoded \<open>temp\<close> struct (name, options, running).
\<close>

definition UnmarshalJSON ::
  "goerror + (string \<times> CreateInstanceOptions option \<times> bool) \<Rightarrow> Instance \<Rightarrow> Instance \<times> outcome" where
  "UnmarshalJSON decoded s =
     (case decoded of
        Inl e \<Rightarrow> (s, Err e)
      | Inr (tName, tOptions, tRunning) \<Rightarrow>
          (let s1 = s\<lparr>Name := tName, Running := tRunning\<rparr> in
           case tOptions of
             None \<Rightarrow> (s1, OK)
           | Some p \<Rightarrow>
              (let (p1, l1) =
                     (case MaxRestarts p of
                        None \<Rightarrow> (p, [])
                      | Some m \<Rightarrow>
                          if m < 0 then (p\<lparr>MaxRestarts := Some 0\<rparr>, [MaxRestartsNegative tName m])
                          else (p, []));
                   (p2, l2) =
                     (case RestartDelay p1 of
                        None \<Rightarrow> (p1, [])
                      | Some d \<Rightarrow>
                          if d < 0 then (p1\<lparr>RestartDelay := Some 5\<rparr>, [RestartDelayNegative tName d])
                          else (p1, []))
               in (s1\<lparr>options := Some p2, logged := logged s1 @ l1 @ l2\<rparr>, OK))))"

section \<open>Log file\<close>

definition NL :: char where
  "NL = CHR 0x0A"

text \<open>
  A write through an open handle appends to the file of that path (the file was opened
  with \<open>O_APPEND\<close>); \<open>os.OpenFile\<close> with \<open>O_CREATE\<close> creates an empty file when there is none.
\<close>

definition fappend :: "string \<Rightarrow> string \<Rightarrow> (string \<Rightarrow> string option) \<Rightarrow> (string \<Rightarrow> string option)" where
  "fappend path text fs = (case fs path of None \<Rightarrow> fs | Some c \<Rightarrow> fs(path \<mapsto> c @ text))"

definition fcreate :: "string \<Rightarrow> (string \<Rightarrow> string option) \<Rightarrow> (string \<Rightarrow> string option)" where
  "fcreate path fs = (case fs path of None \<Rightarrow> fs(path \<mapsto> []) | Some c \<Rightarrow> fs)"

definition startedMarker :: "string \<Rightarrow> string \<Rightarrow> string" where
  "startedMarker name timestamp =
     [NL] @ ''=== Instance '' @ name @ '' started at '' @ timestamp @ '' ==='' @ [NL]"

definition stoppedMarker :: "string \<Rightarrow> string \<Rightarrow> string" where
  "stoppedMarker name timestamp =
     ''=== Instance '' @ name @ '' stopped at '' @ timestamp @ '' ==='' @ [NL, NL]"

text \<open>
  \<open>createLogFile\<close>, lines 118-132. \<open>openErr\<close> is the error of \<open>os.OpenFile\<close>, \<open>timestamp\<close> the
  formatted \<open>time.Now()\<close>.
\<close>

definition createLogFile :: "goerror option \<Rightarrow> string \<Rightarrow> Instance \<Rightarrow> Instance \<times> outcome" where
  "createLogFile openErr timestamp s =
     (case globalSettings s of
        None \<Rightarrow> (s, Panic)
      | Some g \<Rightarrow>
          (let logPath = LogDirectory g @ ''/'' @ Name s @ ''.log'' in
           case openErr of
             Some e \<Rightarrow> (s, Err (''failed to create stdout log file: '' @ e))
           | None \<Rightarrow>
               (s\<lparr>logFile := Some logPath,
                  files := fappend logPath (startedMarker (Name s) timestamp)
                             (fcreate logPath (files s))\<rparr>, OK)))"

text \<open>\<open>closeLogFile\<close>, lines 135-142.\<close>

definition closeLogFile :: "string \<Rightarrow> Instance \<Rightarrow> Instance" where
  "closeLogFile timestamp s =
     (case logFile s of
        None \<Rightarrow> s
      | Some path \<Rightarrow>
          s\<lparr>files := fappend path (stoppedMarker (Name s) timestamp) (files s),
            logFile := None\<rparr>)"

section \<open>Reverse proxy\<close>

text \<open>\<open>%d\<close> of \<open>fmt.Sprintf\<close>.\<close>

fun utoa :: "nat \<Rightarrow> string" where
  "utoa n = (if n < 10 then [''0123456789'' ! n]
             else utoa (n div 10) @ [''0123456789'' ! (n mod 10)])"

declare utoa.simps [simp del]

definition itoa :: "int \<Rightarrow> string" where
  "itoa i = (if i < 0 then CHR ''-'' # utoa (nat (- i)) else utoa (nat i))"

text \<open>
  \<open>GetProxy\<close>, lines 182-200. \<open>urlParse\<close> gives the error of \<open>url.Parse\<close> on a string
  (\<open>None\<close> when it parses); the proxy built by \<open>NewSingleHostReverseProxy\<close> is represented
  by the URL it targets.
\<close>

definition GetProxy ::
  "(string \<Rightarrow> goerror option) \<Rightarrow> Instance \<Rightarrow> Instance \<times> (goerror + string)" where
  "GetProxy urlParse s =
     (case proxy s of
        Some p \<Rightarrow> (s, Inr p)
      | None \<Rightarrow>
         (case options s of
            None \<Rightarrow> (s, Inl (''instance '' @ Name s @ '' has no options set''))
          | Some opts \<Rightarrow>
             (let targetURL = ''http://'' @ Host (Llama opts) @ '':'' @ itoa (Port (Llama opts)) in
              case urlParse targetURL of
                Some e \<Rightarrow>
                  (s, Inl (''failed to parse target URL for instance '' @ Name s @ '': '' @ e))
              | None \<Rightarrow> (s\<lparr>proxy := Some targetURL\<rparr>, Inr targetURL))))"

section \<open>Start and Stop\<close>

text \<open>
  What the environment answers during one call of \<open>Start\<close>: the time, and the errors
  (if any) of \<open>os.OpenFile\<close>, \<open>StdoutPipe\<close>, \<open>StderrPipe\<close> and \<open>cmd.Start\<close>.
\<close>

record StartEnv =
  now :: string
  openErr :: "goerror option"
  stdoutErr :: "goerror option"
  stderrErr :: "goerror option"
  spawnErr :: "goerror option"

text \<open>
  \<open>Start\<close>, lines 202-257. The child is named by the number of children spawned before
  it. When \<open>cmd.Start\<close> fails, \<open>os/exec\<close> itself closes the two pipes it handed out; the
  function returns at once (line 246). The two \<open>readOutput\<close> goroutines only append the
  child's output to the log file and are left out.
\<close>

definition Start :: "StartEnv \<Rightarrow> Instance \<Rightarrow> Instance \<times> outcome" where
  "Start env s =
     (if Running s then (s, Err (''instance '' @ Name s @ '' is already running''))
      else case options s of
        None \<Rightarrow> (s, Err (''instance '' @ Name s @ '' has no options set''))
      | Some opts \<Rightarrow>
         (case createLogFile (openErr env) (now env) s of
            (s1, Panic) \<Rightarrow> (s1, Panic)
          | (s1, Err e) \<Rightarrow> (s1, Err (''failed to create log files: '' @ e))
          | (s1, OK) \<Rightarrow>
             (let child = nextPid s1;
                  s2 = s1\<lparr>cancel := Some child, cmd := Some child\<rparr>
              in case stdoutErr env of
                Some e \<Rightarrow>
                  (closeLogFile (now env) (s2\<lparr>stdout := None\<rparr>),
                   Err (''failed to get stdout pipe: '' @ e))
              | None \<Rightarrow>
                 (let s3 = s2\<lparr>stdout := Some True\<rparr> in
                  case stderrErr env of
                    Some e \<Rightarrow>
                      (closeLogFile (now env) (s3\<lparr>stderr := None, stdout := Some False\<rparr>),
                       Err (''failed to get stderr pipe: '' @ e))
                  | None \<Rightarrow>
                     (let s4 = s3\<lparr>stderr := Some True\<rparr> in
                      case spawnErr env of
                        Some e \<Rightarrow>
                          (s4\<lparr>stdout := Some False, stderr := Some False\<rparr>,
                           Err (''failed to start instance '' @ Name s @ '': '' @ e))
                      | None \<Rightarrow>
                          (s4\<lparr>Running := True, nextPid := child + 1,
                              monitors := monitors s4 @ [child]\<rparr>, OK))))))"

text \<open>Lines 266-270 and 275-278: the cancel function is called and forgotten.\<close>

definition cancelRestart :: "Instance \<Rightarrow> Instance" where
  "cancelRestart s =
     (case restartCancel s of
        None \<Rightarrow> s
      | Some c \<Rightarrow> s\<lparr>cancelled := insert c (cancelled s), restartCancel := None\<rparr>)"

text \<open>
  \<open>Stop\<close>, lines 260-307. Calling a nil \<open>i.cancel\<close> panics, and so does \<open>i.cmd.Wait()\<close> on
  a nil \<open>cmd\<close>. Whether the child exits by itself within five seconds or is killed, it
  has exited when \<open>Stop\<close> goes on, with the lock held all the while.
\<close>

definition Stop :: "string \<Rightarrow> Instance \<Rightarrow> Instance \<times> outcome" where
  "Stop timestamp s =
     (if \<not> Running s then
        (case restartCancel s of
           Some c \<Rightarrow>
             ((cancelRestart s)\<lparr>logged := logged s @ [CancelledPendingRestart (Name s)]\<rparr>,
              Err (''instance '' @ Name s @ '' is not running''))
         | None \<Rightarrow> (s, Err (''instance '' @ Name s @ '' is not running'')))
      else
        (let s1 = cancelRestart s in
         case cancel s1 of
           None \<Rightarrow> (s1, Panic)
         | Some child \<Rightarrow>
            (let s2 = s1\<lparr>killed := insert child (killed s1), proxy := None\<rparr> in
             case cmd s2 of
               None \<Rightarrow> (s2, Panic)
             | Some c \<Rightarrow> (closeLogFile timestamp (s2\<lparr>Running := False\<rparr>), OK))))"

section \<open>Logs\<close>

text \<open>
  \<open>bufio.Scanner\<close> with the default split function \<open>ScanLines\<close> and the default buffer:
  a line ends at a newline, one trailing carriage return is dropped, a last line without
  newline counts when it is not empty, and a line that does not fit the buffer of
  \<open>MaxScanTokenSize\<close> bytes stops the scan with \<open>ErrTooLong\<close>.
\<close>

definition MaxScanTokenSize :: nat where
  "MaxScanTokenSize = 64 * 1024"

definition dropCR :: "string \<Rightarrow> string" where
  "dropCR data = (if data \<noteq> [] \<and> last data = CHR 0x0D then butlast data else data)"

function scanLines :: "string \<Rightarrow> goerror + string list" where
  "scanLines data =
     (if data = [] then Inr []
      else if MaxScanTokenSize \<le> length (takeWhile (\<lambda>c. c \<noteq> NL) data)
      then Inl ''bufio.Scanner: token too long''
      else (case scanLines (drop 1 (dropWhile (\<lambda>c. c \<noteq> NL) data)) of
              Inl e \<Rightarrow> Inl e
            | Inr ls \<Rightarrow> Inr (dropCR (takeWhile (\<lambda>c. c \<noteq> NL) data) # ls)))"
  by pat_completeness auto
termination
proof (relation "measure length")
  show "wf (measure length)" by simp
next
  fix data :: string
  assume "data \<noteq> []"
  then have pos: "0 < length data" by simp
  have le: "length (dropWhile (\<lambda>c. c \<noteq> NL) data) \<le> length data"
    by (rule length_dropWhile_le)
  have "length (drop 1 (dropWhile (\<lambda>c. c \<noteq> NL) data)) < length data"
    using pos le by (simp only: length_drop)
  then show "(drop 1 (dropWhile (\<lambda>c. c \<noteq> NL) data), data) \<in> measure length"
    by simp
qed

declare scanLines.simps [simp del]

text \<open>\<open>strings.Join\<close>.\<close>

fun Join :: "string list \<Rightarrow> string \<Rightarrow> string" where
  "Join [] sep = []"
| "Join [x] sep = x"
| "Join (x # y # ys) sep = x @ sep @ Join (y # ys) sep"

text \<open>
  \<open>GetLogs\<close>, lines 310-352. \<open>os.Open\<close> fails when no file has the path; read errors of
  the operating system are not modelled.
\<close>

definition GetLogs :: "int \<Rightarrow> Instance \<Rightarrow> goerror + string" where
  "GetLogs num_lines s =
     (let logFileName = (case logFile s of None \<Rightarrow> [] | Some path \<Rightarrow> path) in
      if logFileName = [] then Inl (''log file not created for instance '' @ Name s)
      else case files s logFileName of
        None \<Rightarrow>
          Inl (''failed to open log file: open '' @ logFileName @ '': no such file or directory'')
      | Some content \<Rightarrow>
          if num_lines \<le> 0 then Inr content
          else (case scanLines content of
                  Inl e \<Rightarrow> Inl (''error reading file: '' @ e)
                | Inr lines \<Rightarrow>
                    (let start = max (int (length lines) - num_lines) 0
                     in Inr (Join (drop (nat start) lines) [NL]))))"

section \<open>Monitor and automatic restart\<close>

text \<open>
  \<open>validateRestartConditions\<close>, lines 441-472: the decision, the two parameters, and the
  instance with the reason logged.
\<close>

definition validateRestartConditions :: "Instance \<Rightarrow> Instance \<times> bool \<times> int \<times> int" where
  "validateRestartConditions s =
     (case options s of
        None \<Rightarrow> (s\<lparr>logged := logged s @ [OptionsAreNil (Name s)]\<rparr>, False, 0, 0)
      | Some opts \<Rightarrow>
          if AutoRestart opts = None \<or> AutoRestart opts = Some False
          then (s\<lparr>logged := logged s @ [AutoRestartDisabled (Name s)]\<rparr>, False, 0, 0)
          else (case MaxRestarts opts of
             None \<Rightarrow> (s\<lparr>logged := logged s @ [MaxRestartsIsNil (Name s)]\<rparr>, False, 0, 0)
           | Some maxRestarts \<Rightarrow>
              (case RestartDelay opts of
                 None \<Rightarrow> (s\<lparr>logged := logged s @ [RestartDelayIsNil (Name s)]\<rparr>, False, 0, 0)
               | Some restartDelay \<Rightarrow>
                   if restarts s \<ge> maxRestarts
                   then (s\<lparr>logged := logged s @ [ExceededMaxRestarts (Name s) maxRestarts]\<rparr>,
                         False, 0, 0)
                   else (s, True, maxRestarts, restartDelay))))"

text \<open>
  \<open>handleRestart\<close> up to the release of the lock, lines 399-416. The goroutine then waits
  in its \<open>select\<close>: it joins \<open>sleepers\<close> under the name of its fresh restart context.
\<close>

definition handleRestart :: "Instance \<Rightarrow> Instance" where
  "handleRestart s =
     (case validateRestartConditions s of
        (s1, shouldRestart, maxRestarts, restartDelay) \<Rightarrow>
          if \<not> shouldRestart then s1
          else
            (let s2 = s1\<lparr>restarts := restarts s1 + 1\<rparr>;
                 s3 = s2\<lparr>logged := logged s2 @
                         [AutoRestarting (Name s2) (restarts s2) maxRestarts restartDelay]\<rparr>;
                 restartCtx = nextCtx s3
             in s3\<lparr>restartCancel := Some restartCtx, nextCtx := restartCtx + 1,
                   sleepers := sleepers s3 @ [restartCtx]\<rparr>))"

text \<open>
  The \<open>select\<close> of \<open>handleRestart\<close>, lines 418-426, which runs without the lock. The
  goroutine leaves through \<open>restartCtx.Done()\<close>, logs that the restart was cancelled
  and ends, or it leaves through the timer and goes on to call \<open>Start\<close>. Which case a
  run takes is part of the event; the \<open>Done\<close> case is open only once the context has
  been cancelled (see \<open>step\<close>), the timer case at any time, also after a cancellation:
  when both channels are ready, as with a delay of zero, Go picks either.
\<close>

datatype selectCase = TimerCase | DoneCase

definition restartSelect :: "nat \<Rightarrow> selectCase \<Rightarrow> Instance \<Rightarrow> Instance" where
  "restartSelect restartCtx branch s =
     (case branch of
        DoneCase \<Rightarrow> s\<lparr>logged := logged s @ [RestartCancelled (Name s)]\<rparr>
      | TimerCase \<Rightarrow> s\<lparr>starting := starting s @ [restartCtx]\<rparr>)"

text \<open>
  Lines 428-433: the goroutine that left through the timer calls \<open>Start\<close>, which takes
  the lock, and logs the result. A cancellation that comes after the \<open>select\<close> does not
  stop it.
\<close>

definition restartStart :: "StartEnv \<Rightarrow> Instance \<Rightarrow> Instance" where
  "restartStart env s =
     (case Start env s of
        (s1, Panic) \<Rightarrow> s1
      | (s1, Err e) \<Rightarrow> s1\<lparr>logged := logged s1 @ [FailedToRestart (Name s1) e]\<rparr>
      | (s1, OK) \<Rightarrow>
          s1\<lparr>logged := logged s1 @ [SuccessfullyRestarted (Name s1)],
             clearing := clearing s1 + 1\<rparr>)"

text \<open>Lines 434-436: the lock is taken once more and the cancel function cleared.\<close>

definition restartClear :: "Instance \<Rightarrow> Instance" where
  "restartClear s = s\<lparr>restartCancel := None\<rparr>"

text \<open>
  \<open>monitorProcess\<close> from the moment it holds the lock, lines 371-396; \<open>err\<close> is what
  \<open>cmd.Wait()\<close> returned.
\<close>

definition monitorProcess :: "goerror option \<Rightarrow> string \<Rightarrow> Instance \<Rightarrow> Instance" where
  "monitorProcess err timestamp s =
     (if \<not> Running s then s
      else
        (let s1 = closeLogFile timestamp (s\<lparr>Running := False\<rparr>);
             s2 = cancelRestart s1
         in case err of
              Some e \<Rightarrow> handleRestart (s2\<lparr>logged := logged s2 @ [Crashed (Name s2) e]\<rparr>)
            | None \<Rightarrow> s2\<lparr>logged := logged s2 @ [ExitedCleanly (Name s2)]\<rparr>))"

section \<open>Runs\<close>

text \<open>
  The mutex makes each of the functions above atomic, so a run of the instance is a
  sequence of events: the operator calls \<open>Start\<close> or \<open>Stop\<close>, the monitor of a child sees
  it exit, a waiting restart goroutine leaves its \<open>select\<close>, a restart goroutine that
  left through the timer calls \<open>Start\<close>, or a restart goroutine clears the cancel
  function after its \<open>Start\<close>. An event of a goroutine that does not exist, and the
  \<open>Done\<close> case of a context that has not been cancelled, change nothing.
\<close>

datatype event =
    OperatorStart StartEnv
  | OperatorStop string
  | ChildExit nat "goerror option" string
  | RestartSelect nat selectCase
  | RestartStart nat StartEnv
  | RestartCleared

fun step :: "event \<Rightarrow> Instance \<Rightarrow> Instance" where
  "step (OperatorStart env) s = fst (Start env s)"
| "step (OperatorStop timestamp) s = fst (Stop timestamp s)"
| "step (ChildExit child err timestamp) s =
     (if child \<in> set (monitors s)
      then monitorProcess err timestamp (s\<lparr>monitors := remove1 child (monitors s)\<rparr>)
      else s)"
| "step (RestartSelect restartCtx branch) s =
     (if restartCtx \<in> set (sleepers s) \<and> (branch = TimerCase \<or> restartCtx \<in> cancelled s)
      then restartSelect restartCtx branch (s\<lparr>sleepers := remove1 restartCtx (sleepers s)\<rparr>)
      else s)"
| "step (RestartStart restartCtx env) s =
     (if restartCtx \<in> set (starting s)
      then restartStart env (s\<lparr>starting := remove1 restartCtx (starting s)\<rparr>)
      else s)"
| "step RestartCleared s =
     (if 0 < clearing s then restartClear (s\<lparr>clearing := clearing s - 1\<rparr>) else s)"

fun run :: "event list \<Rightarrow> Instance \<Rightarrow> Instance" where
  "run [] s = s"
| "run (e # es) s = run es (step e s)"

section \<open>Notions the properties are stated with\<close>

text \<open>The bound of the restart policy in force, when there is one.\<close>

definition maxRestartsOf :: "Instance \<Rightarrow> int option" where
  "maxRestartsOf s = (case options s of None \<Rightarrow> None | Some opts \<Rightarrow> MaxRestarts opts)"

text \<open>
  The condition under which the monitor schedules a restart after a crash: options are
  present, \<open>auto_restart\<close> is present and true, \<open>max_restarts\<close> and
  \<open>restart_delay_seconds\<close> are present, and the counter is below the bound.
\<close>

definition restartAllowed :: "Instance \<Rightarrow> bool" where
  "restartAllowed s =
     (case options s of
        None \<Rightarrow> False
      | Some opts \<Rightarrow>
          AutoRestart opts = Some True \<and>
          (case MaxRestarts opts of
             None \<Rightarrow> False
           | Some m \<Rightarrow> RestartDelay opts \<noteq> None \<and> restarts s < m))"

text \<open>
  The lines of a text, read character by character: a newline ends a line, and what
  follows the last newline is a line when it is not empty.
\<close>

fun linesOf :: "string \<Rightarrow> string list" where
  "linesOf [] = []"
| "linesOf (c # cs) =
     (if c = NL then [] # linesOf cs
      else (case linesOf cs of [] \<Rightarrow> [[c]] | l # ls \<Rightarrow> (c # l) # ls))"

text \<open>The last \<open>n\<close> elements of a list, all of them when there are at most \<open>n\<close>.\<close>

definition lastN :: "nat \<Rightarrow> 'a list \<Rightarrow> 'a list" where
  "lastN n xs = drop (length xs - n) xs"

section \<open>A sample instance\<close>

definition demoEnv :: Env where
  "demoEnv = \<lparr>files = (\<lambda>path. None), logged = [], cancelled = {}, nextCtx = 0,
     sleepers = [], starting = [], clearing = 0, monitors = [], nextPid = 0, killed = {}\<rparr>"

definition demoConfig :: InstancesConfig where
  "demoConfig = \<lparr>LogDirectory = ''/logs'', DefaultAutoRestart = True,
     DefaultMaxRestarts = 3, DefaultRestartDelay = 5\<rparr>"

definition demoOptions :: CreateInstanceOptions where
  "demoOptions = \<lparr>AutoRestart = Some True, MaxRestarts = Some 2, RestartDelay = Some 1,
     Llama = \<lparr>Host = ''127.0.0.1'', Port = 18001\<rparr>\<rparr>"

text \<open>What \<open>NewInstance\<close> returns for the name \<open>small\<close> and the values above.\<close>

definition demoInstance :: Instance where
  "demoInstance =
     \<lparr>files = (\<lambda>path. None), logged = [], cancelled = {}, nextCtx = 0,
      sleepers = [], starting = [], clearing = 0, monitors = [], nextPid = 0, killed = {},
      Name = ''small'', options = Some demoOptions, globalSettings = Some demoConfig,
      Running = False, logFile = None, cmd = None, cancel = None, stdout = None,
      stderr = None, restarts = 0, proxy = None, restartCancel = None\<rparr>"

text \<open>
  A call of \<open>Start\<close> during which nothing fails, and one whose \<open>cmd.Start\<close> fails with
  the error of \<open>os/exec\<close> for a program that is not in the path (\<open>CHR 0x22\<close> is the double
  quote around the program's name).
\<close>

definition okEnv :: StartEnv where
  "okEnv = \<lparr>now = ''2025-01-01 10:00:00'', openErr = None, stdoutErr = None,
     stderrErr = None, spawnErr = None\<rparr>"

definition noBinaryEnv :: StartEnv where
  "noBinaryEnv = okEnv\<lparr>spawnErr :=
     Some (''exec: '' @ [CHR 0x22] @ ''llama-server'' @ [CHR 0x22] @
           '': executable file not found in $PATH'')\<rparr>"

text \<open>The sample instance once started: the child runs.\<close>

definition demoRunning :: Instance where
  "demoRunning = fst (Start okEnv demoInstance)"

section \<open>Sample runs\<close>

text \<open>
  The child crashes twice and is restarted twice (the bound of the sample instance);
  later it crashes again, the operator starts it, and it crashes once more.
\<close>

definition demoCrashes :: "event list" where
  "demoCrashes =
     [OperatorStart okEnv,
      ChildExit 0 (Some ''exit status 1'') ''2025-01-01 10:01:00'',
      RestartSelect 0 TimerCase,
      RestartStart 0 okEnv,
      ChildExit 1 (Some ''exit status 1'') ''2025-01-01 10:02:00'',
      RestartSelect 1 TimerCase,
      RestartStart 1 okEnv]"

definition demoLater :: "event list" where
  "demoLater =
     [ChildExit 2 (Some ''exit status 1'') ''2025-01-01 10:03:00'',
      OperatorStart okEnv,
      ChildExit 3 (Some ''exit status 1'') ''2025-01-01 10:04:00'']"

text \<open>
  The child crashed once and was restarted automatically; then the operator stopped the
  instance.
\<close>

definition demoStoppedAfterCrash :: Instance where
  "demoStoppedAfterCrash =
     run [OperatorStart okEnv,
          ChildExit 0 (Some ''exit status 1'') ''2025-01-01 10:01:00'',
          RestartSelect 0 TimerCase,
          RestartStart 0 okEnv,
          OperatorStop ''2025-01-01 10:05:00''] demoInstance"

text \<open>Options outside the ranges of the restart policy.\<close>

definition wildOptions :: CreateInstanceOptions where
  "wildOptions = demoOptions\<lparr>MaxRestarts := Some 500, RestartDelay := Some 0\<rparr>"

text \<open>
  The sample instance started with options that carry no \<open>restart_delay_seconds\<close>
  (\<open>SetOptions\<close> stores such options as they are).
\<close>

definition demoNoDelay :: Instance where
  "demoNoDelay =
     fst (Start okEnv (SetOptions (Some (demoOptions\<lparr>RestartDelay := None\<rparr>)) demoInstance))"

text \<open>
  The sample instance after its child crashed: it is stopped and a restart is pending.
\<close>

definition demoPending :: Instance where
  "demoPending =
     run [OperatorStart okEnv,
          ChildExit 0 (Some ''exit status 1'') ''2025-01-01 10:01:00''] demoInstance"

text \<open>
  The operator stops the running sample instance and starts it again at once (a
  restart); the monitor of the first child, which \<open>Stop\<close> killed, takes the lock only
  after that second \<open>Start\<close>; then the timer of the restart goroutine it leaves behind
  fires and the goroutine calls \<open>Start\<close>.
\<close>

definition demoRace :: "event list" where
  "demoRace =
     [OperatorStart okEnv,
      OperatorStop ''2025-01-01 10:05:00'',
      OperatorStart okEnv,
      ChildExit 0 (Some ''signal: killed'') ''2025-01-01 10:05:01'',
      RestartSelect 0 TimerCase,
      RestartStart 0 okEnv]"

text \<open>
  A log file that exists before the instance starts and holds one line of
  \<open>MaxScanTokenSize\<close> bytes without a newline; the instance started on it.
\<close>

definition longLine :: string where
  "longLine = replicate MaxScanTokenSize (CHR ''a'')"

definition demoLongLog :: Instance where
  "demoLongLog =
     fst (Start okEnv (demoInstance\<lparr>files := (\<lambda>path. None)(''/logs/small.log'' \<mapsto> longLine)\<rparr>))"

text \<open>
  The running sample instance with each of the restart conditions failing in turn.
\<close>

definition demoNoOptions :: Instance where
  "demoNoOptions = demoRunning\<lparr>options := None\<rparr>"

definition demoNoAuto :: Instance where
  "demoNoAuto = demoRunning\<lparr>options := Some (demoOptions\<lparr>AutoRestart := Some False\<rparr>)\<rparr>"

definition demoNoMax :: Instance where
  "demoNoMax = demoRunning\<lparr>options := Some (demoOptions\<lparr>MaxRestarts := None\<rparr>)\<rparr>"

definition demoAtCap :: Instance where
  "demoAtCap = demoRunning\<lparr>restarts := 2\<rparr>"

text \<open>
  The child crashes and is restarted; the new child crashes before the first restart
  goroutine has taken the lock again, so that goroutine clears the cancel function of
  the second restart (lines 434-436). The instance is stopped, a restart is pending, and
  the instance no longer holds its cancel function.
\<close>

definition demoLostCancel :: "event list" where
  "demoLostCancel =
     [OperatorStart okEnv,
      ChildExit 0 (Some ''exit status 1'') ''2025-01-01 10:01:00'',
      RestartSelect 0 TimerCase,
      RestartStart 0 okEnv,
      ChildExit 1 (Some ''exit status 1'') ''2025-01-01 10:02:00'',
      RestartCleared]"

text \<open>Then the operator calls \<open>Stop\<close>, and the timer of the pending restart fires.\<close>

definition demoLostCancelStopped :: "event list" where
  "demoLostCancelStopped =
     demoLostCancel @
     [OperatorStop ''2025-01-01 10:02:01'',
      RestartSelect 1 TimerCase,
      RestartStart 1 okEnv]"

text \<open>
  A zero \<open>Instance\<close>, and what \<open>UnmarshalJSON\<close> makes of it from a snapshot that was
  written while the instance ran: \<open>Running\<close> is true and there is no child.
\<close>

definition zeroInstance :: Instance where
  "zeroInstance =
     \<lparr>files = (\<lambda>path. None), logged = [], cancelled = {}, nextCtx = 0,
      sleepers = [], starting = [], clearing = 0, monitors = [], nextPid = 0, killed = {},
      Name = [], options = None, globalSettings = None,
      Running = False, logFile = None, cmd = None, cancel = None, stdout = None,
      stderr = None, restarts = 0, proxy = None, restartCancel = None\<rparr>"

definition demoLoaded :: Instance where
  "demoLoaded = fst (UnmarshalJSON (Inr (''small'', Some demoOptions, True)) zeroInstance)"

section \<open>What each function leaves alone\<close>

lemma NewInstance_demo: "NewInstance ''small'' (Some demoConfig) (Some demoOptions) demoEnv = Some demoInstance"
  by (simp add: NewInstance_def copyOptions_def copyMaxRestarts_def copyRestartDelay_def
      withDefault_def demoOptions_def demoInstance_def demoEnv_def)

lemma closeLogFile_frame [simp]:
  "options (closeLogFile t s) = options s" "restarts (closeLogFile t s) = restarts s"
  "Running (closeLogFile t s) = Running s" "logFile (closeLogFile t s) = None"
  "restartCancel (closeLogFile t s) = restartCancel s" "cancelled (closeLogFile t s) = cancelled s"
  "sleepers (closeLogFile t s) = sleepers s" "nextPid (closeLogFile t s) = nextPid s"
  "nextCtx (closeLogFile t s) = nextCtx s" "proxy (closeLogFile t s) = proxy s"
  "monitors (closeLogFile t s) = monitors s" "clearing (closeLogFile t s) = clearing s"
  "logged (closeLogFile t s) = logged s" "Name (closeLogFile t s) = Name s"
  "cmd (closeLogFile t s) = cmd s" "cancel (closeLogFile t s) = cancel s"
  "killed (closeLogFile t s) = killed s" "globalSettings (closeLogFile t s) = globalSettings s"
  "stdout (closeLogFile t s) = stdout s" "stderr (closeLogFile t s) = stderr s"
  by (simp_all add: closeLogFile_def split: option.splits)

lemma cancelRestart_frame [simp]:
  "options (cancelRestart s) = options s" "restarts (cancelRestart s) = restarts s"
  "Running (cancelRestart s) = Running s" "logFile (cancelRestart s) = logFile s"
  "restartCancel (cancelRestart s) = None" 
  "sleepers (cancelRestart s) = sleepers s" "nextPid (cancelRestart s) = nextPid s"
  "nextCtx (cancelRestart s) = nextCtx s" "proxy (cancelRestart s) = proxy s"
  "monitors (cancelRestart s) = monitors s" "clearing (cancelRestart s) = clearing s"
  "logged (cancelRestart s) = logged s" "Name (cancelRestart s) = Name s"
  "cmd (cancelRestart s) = cmd s" "cancel (cancelRestart s) = cancel s"
  "killed (cancelRestart s) = killed s" "files (cancelRestart s) = files s"
  "globalSettings (cancelRestart s) = globalSettings s"
  by (simp_all add: cancelRestart_def split: option.splits)

lemma cancelRestart_cancelled:
  "cancelled (cancelRestart s) = (case restartCancel s of None \<Rightarrow> cancelled s | Some c \<Rightarrow> insert c (cancelled s))"
  by (simp add: cancelRestart_def split: option.splits)

lemma Start_frame:
  "options (fst (Start env s)) = options s"
  "restarts (fst (Start env s)) = restarts s"
  "restartCancel (fst (Start env s)) = restartCancel s"
  "cancelled (fst (Start env s)) = cancelled s"
  "sleepers (fst (Start env s)) = sleepers s"
  "nextCtx (fst (Start env s)) = nextCtx s"
  "clearing (fst (Start env s)) = clearing s"
  "logged (fst (Start env s)) = logged s"
  "Name (fst (Start env s)) = Name s"
  "proxy (fst (Start env s)) = proxy s"
  by (simp_all add: Start_def createLogFile_def Let_def split: option.splits)

lemma Stop_frame:
  "options (fst (Stop t s)) = options s"
  "restarts (fst (Stop t s)) = restarts s"
  "sleepers (fst (Stop t s)) = sleepers s"
  "nextCtx (fst (Stop t s)) = nextCtx s"
  "nextPid (fst (Stop t s)) = nextPid s"
  "clearing (fst (Stop t s)) = clearing s"
  "Name (fst (Stop t s)) = Name s"
  by (simp_all add: Stop_def Let_def split: option.splits)

lemma validate_frame:
  "fst (snd (validateRestartConditions s)) = restartAllowed s"
  "restarts (fst (validateRestartConditions s)) = restarts s"
  "options (fst (validateRestartConditions s)) = options s"
  "sleepers (fst (validateRestartConditions s)) = sleepers s"
  "nextCtx (fst (validateRestartConditions s)) = nextCtx s"
  "nextPid (fst (validateRestartConditions s)) = nextPid s"
  by (auto simp: validateRestartConditions_def restartAllowed_def split: option.splits)

lemma handleRestart_refused:
  "\<not> restartAllowed s \<Longrightarrow>
     restarts (handleRestart s) = restarts s \<and> sleepers (handleRestart s) = sleepers s \<and>
     nextCtx (handleRestart s) = nextCtx s \<and> restartCancel (handleRestart s) = restartCancel s \<and>
     cancelled (handleRestart s) = cancelled s \<and> nextPid (handleRestart s) = nextPid s \<and>
     (\<exists>reason. logged (handleRestart s) = logged s @ [reason])"
  by (auto simp: handleRestart_def validateRestartConditions_def restartAllowed_def split: option.splits)

lemma handleRestart_granted:
  "restartAllowed s \<Longrightarrow>
     restarts (handleRestart s) = restarts s + 1 \<and>
     sleepers (handleRestart s) = sleepers s @ [nextCtx s] \<and>
     nextCtx (handleRestart s) = nextCtx s + 1 \<and>
     restartCancel (handleRestart s) = Some (nextCtx s) \<and>
     cancelled (handleRestart s) = cancelled s \<and> nextPid (handleRestart s) = nextPid s"
  by (auto simp: handleRestart_def validateRestartConditions_def restartAllowed_def Let_def split: option.splits)

lemma handleRestart_frame:
  "options (handleRestart s) = options s" "Running (handleRestart s) = Running s"
  "nextPid (handleRestart s) = nextPid s" "logFile (handleRestart s) = logFile s"
  "files (handleRestart s) = files s" "Name (handleRestart s) = Name s"
  "monitors (handleRestart s) = monitors s" "clearing (handleRestart s) = clearing s"
  "cancelled (handleRestart s) = cancelled s"
  by (auto simp: handleRestart_def validateRestartConditions_def Let_def split: option.splits)

lemma restartAllowed_bound:
  "restartAllowed s \<Longrightarrow> maxRestartsOf s = Some m \<Longrightarrow> restarts s < m"
  by (auto simp: restartAllowed_def maxRestartsOf_def split: option.splits)

lemma restartAllowed_cong:
  "options s' = options s \<Longrightarrow> restarts s' = restarts s \<Longrightarrow> restartAllowed s' = restartAllowed s"
  by (simp add: restartAllowed_def split: option.splits)

lemma maxRestartsOf_cong: "options s' = options s \<Longrightarrow> maxRestartsOf s' = maxRestartsOf s"
  by (simp add: maxRestartsOf_def)

lemma monitorProcess_frame:
  "options (monitorProcess err t s) = options s"
  "nextPid (monitorProcess err t s) = nextPid s"
  "Name (monitorProcess err t s) = Name s"
  by (auto simp: monitorProcess_def Let_def handleRestart_frame split: option.splits)

lemma monitorProcess_restarts:
  "restarts (monitorProcess err t s) =
     (if Running s \<and> err \<noteq> None \<and> restartAllowed s then restarts s + 1 else restarts s)"
proof (cases "Running s \<and> err \<noteq> None")
  case False
  then show ?thesis by (auto simp: monitorProcess_def Let_def)
next
  case True
  then obtain e where e: "err = Some e" by auto
  define u where "u = (cancelRestart (closeLogFile t (s\<lparr>Running := False\<rparr>)))
     \<lparr>logged := logged (cancelRestart (closeLogFile t (s\<lparr>Running := False\<rparr>))) @
        [Crashed (Name (cancelRestart (closeLogFile t (s\<lparr>Running := False\<rparr>)))) e]\<rparr>"
  have m: "monitorProcess err t s = handleRestart u"
    using True e by (simp add: monitorProcess_def Let_def u_def)
  have a: "restartAllowed u = restartAllowed s"
    by (rule restartAllowed_cong) (simp_all add: u_def)
  have r: "restarts u = restarts s" by (simp add: u_def)
  show ?thesis
    using handleRestart_granted [of u] handleRestart_refused [of u] True m a r by auto
qed

lemma monitorProcess_idle: "\<not> Running s \<Longrightarrow> monitorProcess err t s = s"
  by (simp add: monitorProcess_def)

lemma monitorProcess_clean:
  assumes "Running s"
  shows "monitorProcess None t s =
           (cancelRestart (closeLogFile t (s\<lparr>Running := False\<rparr>)))
             \<lparr>logged := logged s @ [ExitedCleanly (Name s)]\<rparr>"
  using assms by (simp add: monitorProcess_def Let_def)

lemma monitorProcess_crash:
  assumes "Running s"
  shows "\<not> Running (monitorProcess (Some e) t s) \<and>
         logFile (monitorProcess (Some e) t s) = None \<and>
         (restartAllowed s \<longrightarrow>
            restarts (monitorProcess (Some e) t s) = restarts s + 1 \<and>
            sleepers (monitorProcess (Some e) t s) = sleepers s @ [nextCtx s] \<and>
            nextCtx (monitorProcess (Some e) t s) = nextCtx s + 1 \<and>
            restartCancel (monitorProcess (Some e) t s) = Some (nextCtx s)) \<and>
         (\<not> restartAllowed s \<longrightarrow>
            restarts (monitorProcess (Some e) t s) = restarts s \<and>
            sleepers (monitorProcess (Some e) t s) = sleepers s \<and>
            nextCtx (monitorProcess (Some e) t s) = nextCtx s \<and>
            restartCancel (monitorProcess (Some e) t s) = None \<and>
            (\<exists>reason. logged (monitorProcess (Some e) t s) =
                        logged s @ [Crashed (Name s) e, reason]))"
proof -
  define u where "u = (cancelRestart (closeLogFile t (s\<lparr>Running := False\<rparr>)))
     \<lparr>logged := logged (cancelRestart (closeLogFile t (s\<lparr>Running := False\<rparr>))) @
        [Crashed (Name (cancelRestart (closeLogFile t (s\<lparr>Running := False\<rparr>)))) e]\<rparr>"
  have m: "monitorProcess (Some e) t s = handleRestart u"
    using assms by (simp add: monitorProcess_def Let_def u_def)
  have a: "restartAllowed u = restartAllowed s"
    by (rule restartAllowed_cong) (simp_all add: u_def)
  have u: "restarts u = restarts s" "sleepers u = sleepers s" "nextCtx u = nextCtx s"
    "restartCancel u = None" "\<not> Running u" "logFile u = None"
    "logged u = logged s @ [Crashed (Name s) e]"
    by (simp_all add: u_def)
  show ?thesis
    unfolding m
    using handleRestart_granted [of u] handleRestart_refused [of u] a u
    by (auto simp: handleRestart_frame)
qed

lemma monitorProcess_sleepers_at_cap:
  assumes "\<not> restartAllowed s"
  shows "sleepers (monitorProcess err t s) = sleepers s \<and>
         nextCtx (monitorProcess err t s) = nextCtx s \<and>
         restarts (monitorProcess err t s) = restarts s"
proof (cases "Running s")
  case False
  then show ?thesis by (simp add: monitorProcess_idle)
next
  case True
  show ?thesis
  proof (cases err)
    case None
    then show ?thesis using True by (simp add: monitorProcess_clean)
  next
    case (Some e)
    then show ?thesis using monitorProcess_crash [OF True, of e t] assms by simp
  qed
qed

lemma restartSelect_frame:
  "options (restartSelect c b s) = options s"
  "restarts (restartSelect c b s) = restarts s"
  "sleepers (restartSelect c b s) = sleepers s"
  "nextCtx (restartSelect c b s) = nextCtx s"
  "cancelled (restartSelect c b s) = cancelled s"
  "nextPid (restartSelect c b s) = nextPid s"
  "Running (restartSelect c b s) = Running s"
  "cancel (restartSelect c b s) = cancel s"
  "cmd (restartSelect c b s) = cmd s"
  by (simp_all add: restartSelect_def split: selectCase.splits)

lemma restartStart_frame:
  "options (restartStart env s) = options s"
  "restarts (restartStart env s) = restarts s"
  "sleepers (restartStart env s) = sleepers s"
  "nextCtx (restartStart env s) = nextCtx s"
  "cancelled (restartStart env s) = cancelled s"
proof -
  obtain s1 r where st: "Start env s = (s1, r)" by (cases "Start env s")
  have f: "options s1 = options s" "restarts s1 = restarts s" "sleepers s1 = sleepers s"
    "nextCtx s1 = nextCtx s" "cancelled s1 = cancelled s"
    using Start_frame [of env s] st by simp_all
  show "options (restartStart env s) = options s"
    "restarts (restartStart env s) = restarts s"
    "sleepers (restartStart env s) = sleepers s"
    "nextCtx (restartStart env s) = nextCtx s"
    "cancelled (restartStart env s) = cancelled s"
    using f by (simp_all add: restartStart_def st split: outcome.splits)
qed

text \<open>Each event keeps the options, and moves the counter by at most one, upwards.\<close>

lemma step_options: "options (step e s) = options s"
  by (cases e)
    (simp_all add: Start_frame Stop_frame monitorProcess_frame restartSelect_frame
      restartStart_frame restartClear_def)

lemma step_restarts:
  "restarts (step e s) = restarts s \<or> (restartAllowed s \<and> restarts (step e s) = restarts s + 1)"
proof (cases e)
  case (ChildExit child err t)
  have a: "restartAllowed (s\<lparr>monitors := remove1 child (monitors s)\<rparr>) = restartAllowed s"
    by (rule restartAllowed_cong) simp_all
  show ?thesis 
    using ChildExit a monitorProcess_restarts [of err t "s\<lparr>monitors := remove1 child (monitors s)\<rparr>"]
    by auto
qed (simp_all add: Start_frame Stop_frame restartSelect_frame restartStart_frame
    restartClear_def)

lemma step_bounded:
  assumes "maxRestartsOf s = Some m" and "restarts s \<le> m"
  shows "maxRestartsOf (step e s) = Some m \<and> restarts s \<le> restarts (step e s) \<and> restarts (step e s) \<le> m"
  using assms step_restarts [of e s] restartAllowed_bound [of s m]
    maxRestartsOf_cong [OF step_options, of e s]
  by auto

lemma run_bounded:
  assumes "maxRestartsOf s = Some m" and "restarts s \<le> m"
  shows "maxRestartsOf (run evs s) = Some m \<and> restarts s \<le> restarts (run evs s) \<and> restarts (run evs s) \<le> m"
  using assms
proof (induction evs arbitrary: s)
  case Nil
  then show ?case by simp
next
  case (Cons e evs)
  have st: "maxRestartsOf (step e s) = Some m" "restarts s \<le> restarts (step e s)" "restarts (step e s) \<le> m"
    using step_bounded [OF Cons.prems, of e] by simp_all
  show ?case using Cons.IH [OF st(1) st(3)] st(2) by simp
qed

lemma run_append: "run (xs @ ys) s = run ys (run xs s)"
  by (induction xs arbitrary: s) simp_all

lemma step_at_cap:
  assumes "\<not> restartAllowed s"
  shows "nextCtx (step e s) = nextCtx s \<and> set (sleepers (step e s)) \<subseteq> set (sleepers s) \<and> restarts (step e s) = restarts s"
proof (cases e)
  case (ChildExit child err t)
  have a: "\<not> restartAllowed (s\<lparr>monitors := remove1 child (monitors s)\<rparr>)"
    using assms restartAllowed_cong [of "s\<lparr>monitors := remove1 child (monitors s)\<rparr>" s] by simp
  show ?thesis using ChildExit monitorProcess_sleepers_at_cap [OF a, of err t] by simp
next
  case (RestartSelect c b)
  then show ?thesis
    using set_remove1_subset [of c "sleepers s"] by (auto simp: restartSelect_frame)
qed (simp_all add: Start_frame Stop_frame restartStart_frame restartClear_def)

lemma at_cap_not_allowed: "maxRestartsOf s = Some m \<Longrightarrow> m \<le> restarts s \<Longrightarrow> \<not> restartAllowed s"
  using restartAllowed_bound [of s m] by auto

lemma run_at_cap:
  assumes "maxRestartsOf s = Some m" and "restarts s = m"
  shows "nextCtx (run evs s) = nextCtx s \<and> set (sleepers (run evs s)) \<subseteq> set (sleepers s) \<and> restarts (run evs s) = m"
  using assms
proof (induction evs arbitrary: s)
  case Nil
  then show ?case by simp
next
  case (Cons e evs)
  have na: "\<not> restartAllowed s" using at_cap_not_allowed [of s m] Cons.prems by simp
  have st: "nextCtx (step e s) = nextCtx s" "set (sleepers (step e s)) \<subseteq> set (sleepers s)" "restarts (step e s) = m"
    using step_at_cap [OF na, of e] Cons.prems by simp_all
  have mo: "maxRestartsOf (step e s) = Some m"
    using maxRestartsOf_cong [OF step_options, of e s] Cons.prems by simp
  show ?case using Cons.IH [OF mo st(3)] st by auto
qed

section \<open>The restart counter and its bound\<close>

text \<open>
  C1. Take an instance whose options carry a bound \<open>max_restarts = m\<close> and whose counter
  is at most \<open>m\<close> (as it is for a new instance, whose counter is zero). After any
  sequence of operator Start and Stop calls, monitored child exits and steps of restart
  goroutines (leaving the \<open>select\<close>, calling Start, clearing the cancel function), the
  counter is still at most \<open>m\<close>. Once it equals \<open>m\<close>, it stays
  there whatever happens later, no restart context is created any more and no restart
  goroutine joins the waiting ones; in particular the monitor of a crashed child
  schedules nothing and spawns nothing. This holds whether or not the operator calls
  Start in between.
\<close>

theorem restarts_never_exceed_max:
  assumes "maxRestartsOf s = Some m" and "restarts s \<le> m"
  shows "restarts (run evs s) \<le> m \<and>
         (restarts (run evs s) = m \<longrightarrow>
            restarts (run (evs @ later) s) = m \<and>
            nextCtx (run (evs @ later) s) = nextCtx (run evs s) \<and>
            set (sleepers (run (evs @ later) s)) \<subseteq> set (sleepers (run evs s)) \<and>
            sleepers (monitorProcess (Some err) t (run evs s)) = sleepers (run evs s) \<and>
            nextPid (monitorProcess (Some err) t (run evs s)) = nextPid (run evs s))"
proof -
  have b: "maxRestartsOf (run evs s) = Some m" "restarts (run evs s) \<le> m"
    using run_bounded [OF assms, of evs] by simp_all
  have "restarts (run evs s) = m \<Longrightarrow> \<not> restartAllowed (run evs s)"
    using at_cap_not_allowed [OF b(1)] by simp
  then show ?thesis
    using b run_at_cap [OF b(1), of later] monitorProcess_sleepers_at_cap [of "run evs s" "Some err" t]
    by (simp add: run_append monitorProcess_frame)
qed

theorem restarts_never_exceed_max_witness:
  "maxRestartsOf demoInstance = Some 2 \<and> restarts demoInstance \<le> 2 \<and>
   restarts (run demoCrashes demoInstance) = 2 \<and>
   restarts (run (demoCrashes @ demoLater) demoInstance) = 2 \<and>
   nextCtx (run (demoCrashes @ demoLater) demoInstance) = nextCtx (run demoCrashes demoInstance) \<and>
   nextPid (run (demoCrashes @ demoLater) demoInstance) = 4"
proof -
  have h1: "maxRestartsOf demoInstance = Some 2"
    by (simp add: maxRestartsOf_def demoInstance_def demoOptions_def)
  have h2: "restarts demoInstance \<le> 2" by (simp add: demoInstance_def)
  have r: "restarts (run demoCrashes demoInstance) = 2" by code_simp
  have p: "nextPid (run (demoCrashes @ demoLater) demoInstance) = 4" by code_simp
  show ?thesis
    using restarts_never_exceed_max [OF h1 h2, of demoCrashes demoLater] h1 h2 r p by simp
qed

text \<open>
  C2, as the claim states it, fails: the sample instance was restarted once
  automatically and then stopped by the operator; the operator's next Start succeeds and
  the counter is still 1.
\<close>

theorem Start_keeps_restarts_counterexample:
  "snd (Start okEnv demoStoppedAfterCrash) = OK \<and>
   restarts (fst (Start okEnv demoStoppedAfterCrash)) = 1 \<and>
   restarts (fst (Start okEnv demoStoppedAfterCrash)) \<noteq> 0"
  by code_simp

lemma run_restarts_mono: "restarts s \<le> restarts (run evs s)"
proof (induction evs arbitrary: s)
  case Nil
  show ?case by simp
next
  case (Cons e evs)
  have "restarts s \<le> restarts (step e s)" using step_restarts [of e s] by auto
  also have "\<dots> \<le> restarts (run evs (step e s))" by (rule Cons.IH)
  finally show ?case by simp
qed

text \<open>
  C2, amended. Start, successful or not, leaves the counter as it is, and no sequence
  of events ever lowers it: it counts the automatic restarts scheduled since the
  instance was created, and nothing resets it.
\<close>

theorem Start_keeps_restarts:
  "restarts (fst (Start env s)) = restarts s \<and> restarts s \<le> restarts (run evs s)"
  by (simp add: Start_frame run_restarts_mono)

theorem Start_keeps_restarts_witness:
  "restarts (fst (Start okEnv demoStoppedAfterCrash)) = restarts demoStoppedAfterCrash \<and>
   restarts demoStoppedAfterCrash = 1 \<and>
   restarts demoInstance \<le> restarts (run demoCrashes demoInstance)"
proof -
  have "restarts demoStoppedAfterCrash = 1" by code_simp
  then show ?thesis
    using Start_keeps_restarts [of okEnv demoStoppedAfterCrash "[]"]
      Start_keeps_restarts [of okEnv demoInstance demoCrashes]
    by simp
qed

section \<open>Options\<close>

text \<open>
  X1. \<open>NewInstance\<close> does clamp the restart policy it is given: the stored
  \<open>max_restarts\<close> lies in [0,100] and the stored \<open>restart_delay_seconds\<close> in [1,300] (a
  delay below 1 becomes 5), and the new instance is stopped with its counter at zero,
  below the bound.
\<close>

theorem NewInstance_clamps:
  assumes "NewInstance name gs (Some p) w = Some s"
    and "MaxRestarts p = Some v" and "RestartDelay p = Some d"
  shows "\<exists>opts m r. options s = Some opts \<and> MaxRestarts opts = Some m \<and>
           RestartDelay opts = Some r \<and>
           m = (if v > 100 then 100 else if v < 0 then 0 else v) \<and>
           r = (if d < 1 then 5 else if d > 300 then 300 else d) \<and>
           0 \<le> m \<and> m \<le> 100 \<and> 1 \<le> r \<and> r \<le> 300 \<and>
           restarts s = 0 \<and> \<not> Running s \<and> restarts s \<le> m"
  using assms
  by (auto simp: NewInstance_def copyOptions_def copyMaxRestarts_def copyRestartDelay_def
      withDefault_def Let_def split: option.splits if_splits)

theorem NewInstance_clamps_witness:
  "NewInstance ''big'' None (Some wildOptions) demoEnv \<noteq> None \<and>
   map_option maxRestartsOf
     (NewInstance ''big'' None (Some wildOptions) demoEnv) = Some (Some 100)"
proof -
  obtain s where s: "NewInstance ''big'' None (Some wildOptions) demoEnv = Some s"
    by (simp add: NewInstance_def copyOptions_def copyMaxRestarts_def copyRestartDelay_def
      withDefault_def wildOptions_def demoOptions_def)
  have w: "MaxRestarts wildOptions = Some 500" "RestartDelay wildOptions = Some 0"
    by (simp_all add: wildOptions_def)
  show ?thesis
    using NewInstance_clamps [OF s w(1) w(2)] s by (auto simp: maxRestartsOf_def)
qed

lemma SetOptions_stores: "options (SetOptions (Some p) s) = Some p"
  by (simp add: SetOptions_def Let_def split: option.splits)

text \<open>
  C3 fails on the code. \<open>SetOptions\<close> stores the restart policy it is given, whatever
  the values: \<open>max_restarts = 500\<close> and \<open>restart_delay_seconds = 0\<close> are stored as they
  are. \<open>UnmarshalJSON\<close> stores them as they are too, since it only replaces negative
  values.
\<close>

theorem SetOptions_stores_out_of_range:
  "options (SetOptions (Some wildOptions) s) = Some wildOptions \<and>
   options (fst (UnmarshalJSON (Inr (name, Some wildOptions, running)) s)) = Some wildOptions \<and>
   MaxRestarts wildOptions = Some 500 \<and> RestartDelay wildOptions = Some 0"
  by (simp add: SetOptions_stores UnmarshalJSON_def wildOptions_def demoOptions_def)

text \<open>
  C10. \<open>SetOptions\<close> with nil options changes nothing of the instance but the process
  log, which receives the warning: the stored options and the cached proxy stay.
\<close>

theorem SetOptions_nil_is_noop:
  "SetOptions None s = s\<lparr>logged := logged s @ [NilOptionsWarning (Name s)]\<rparr> \<and>
   options (SetOptions None s) = options s \<and>
   proxy (SetOptions None s) = proxy s"
  by (simp add: SetOptions_def)

section \<open>The monitor's decision\<close>

text \<open>
  C4, as the claim states it, fails. The sample instance runs with options that are
  present, with \<open>auto_restart\<close> true and with the counter (0) below \<open>max_restarts\<close> (2),
  but without \<open>restart_delay_seconds\<close>. Its child crashes: the monitor schedules no
  restart and logs that the delay is nil.
\<close>

theorem monitor_decision_counterexample:
  "Running demoNoDelay \<and>
   options demoNoDelay = Some (demoOptions\<lparr>RestartDelay := None\<rparr>) \<and>
   AutoRestart (demoOptions\<lparr>RestartDelay := None\<rparr>) = Some True \<and>
   MaxRestarts (demoOptions\<lparr>RestartDelay := None\<rparr>) = Some 2 \<and>
   restarts demoNoDelay < 2 \<and>
   sleepers (monitorProcess (Some ''exit status 1'') ''2025-01-01 10:01:00'' demoNoDelay) = [] \<and>
   restartCancel (monitorProcess (Some ''exit status 1'') ''2025-01-01 10:01:00'' demoNoDelay) = None \<and>
   restarts (monitorProcess (Some ''exit status 1'') ''2025-01-01 10:01:00'' demoNoDelay) = 0 \<and>
   logged (monitorProcess (Some ''exit status 1'') ''2025-01-01 10:01:00'' demoNoDelay) =
     [Crashed ''small'' ''exit status 1'', RestartDelayIsNil ''small'']"
  by code_simp

lemma monitorProcess_crash_log:
  assumes "Running s"
  shows "(options s = None \<longrightarrow>
            logged (monitorProcess (Some e) t s) =
              logged s @ [Crashed (Name s) e, OptionsAreNil (Name s)]) \<and>
         (options s = Some opts \<and> AutoRestart opts \<noteq> Some True \<longrightarrow>
            logged (monitorProcess (Some e) t s) =
              logged s @ [Crashed (Name s) e, AutoRestartDisabled (Name s)]) \<and>
         (options s = Some opts \<and> AutoRestart opts = Some True \<and> MaxRestarts opts = None \<longrightarrow>
            logged (monitorProcess (Some e) t s) =
              logged s @ [Crashed (Name s) e, MaxRestartsIsNil (Name s)]) \<and>
         (options s = Some opts \<and> AutoRestart opts = Some True \<and> MaxRestarts opts = Some m \<and>
          RestartDelay opts = None \<longrightarrow>
            logged (monitorProcess (Some e) t s) =
              logged s @ [Crashed (Name s) e, RestartDelayIsNil (Name s)]) \<and>
         (options s = Some opts \<and> AutoRestart opts = Some True \<and> MaxRestarts opts = Some m \<and>
          RestartDelay opts = Some d \<and> m \<le> restarts s \<longrightarrow>
            logged (monitorProcess (Some e) t s) =
              logged s @ [Crashed (Name s) e, ExceededMaxRestarts (Name s) m]) \<and>
         (options s = Some opts \<and> AutoRestart opts = Some True \<and> MaxRestarts opts = Some m \<and>
          RestartDelay opts = Some d \<and> restarts s < m \<longrightarrow>
            logged (monitorProcess (Some e) t s) =
              logged s @ [Crashed (Name s) e, AutoRestarting (Name s) (restarts s + 1) m d])"
proof -
  define u where "u = (cancelRestart (closeLogFile t (s\<lparr>Running := False\<rparr>)))
     \<lparr>logged := logged (cancelRestart (closeLogFile t (s\<lparr>Running := False\<rparr>))) @
        [Crashed (Name (cancelRestart (closeLogFile t (s\<lparr>Running := False\<rparr>)))) e]\<rparr>"
  have m: "monitorProcess (Some e) t s = handleRestart u"
    using assms by (simp add: monitorProcess_def Let_def u_def)
  have u: "options u = options s" "restarts u = restarts s" "Name u = Name s"
    "logged u = logged s @ [Crashed (Name s) e]"
    by (simp_all add: u_def)
  show ?thesis
    unfolding m
    by (cases "AutoRestart opts")
      (auto simp: handleRestart_def validateRestartConditions_def Let_def u)
qed

text \<open>
  C4, amended. The monitor sees a child exit while the instance is marked running. On a
  clean exit it schedules nothing: no restart goroutine, no change of the counter, no
  child. On an error exit it schedules a restart if and only if the options are present,
  \<open>auto_restart\<close> is present and true, \<open>max_restarts\<close> and \<open>restart_delay_seconds\<close> are
  both present, and the counter is below \<open>max_restarts\<close> (\<open>restartAllowed\<close>); it then
  increments the counter, installs the cancel function of the new restart context and
  logs the crash and the attempt with its number, the bound and the delay. Otherwise it
  schedules nothing and logs the crash and the reason, which is the first of these that
  applies: the options are nil; \<open>auto_restart\<close> is nil or false; \<open>max_restarts\<close> is nil;
  \<open>restart_delay_seconds\<close> is nil; the counter has reached \<open>max_restarts\<close> (logged with
  the bound). In no case does the monitor itself spawn a child.
\<close>

theorem monitor_decision:
  assumes "Running s"
  shows "sleepers (monitorProcess None t s) = sleepers s \<and>
         restarts (monitorProcess None t s) = restarts s \<and>
         restartCancel (monitorProcess None t s) = None \<and>
         nextPid (monitorProcess None t s) = nextPid s \<and>
         logged (monitorProcess None t s) = logged s @ [ExitedCleanly (Name s)] \<and>
         ((sleepers (monitorProcess (Some e) t s) \<noteq> sleepers s) = restartAllowed s) \<and>
         (restartAllowed s \<longrightarrow>
            sleepers (monitorProcess (Some e) t s) = sleepers s @ [nextCtx s] \<and>
            restartCancel (monitorProcess (Some e) t s) = Some (nextCtx s) \<and>
            restarts (monitorProcess (Some e) t s) = restarts s + 1) \<and>
         (\<not> restartAllowed s \<longrightarrow>
            restartCancel (monitorProcess (Some e) t s) = None \<and>
            restarts (monitorProcess (Some e) t s) = restarts s) \<and>
         (options s = None \<longrightarrow>
            logged (monitorProcess (Some e) t s) =
              logged s @ [Crashed (Name s) e, OptionsAreNil (Name s)]) \<and>
         (options s = Some opts \<and> AutoRestart opts \<noteq> Some True \<longrightarrow>
            logged (monitorProcess (Some e) t s) =
              logged s @ [Crashed (Name s) e, AutoRestartDisabled (Name s)]) \<and>
         (options s = Some opts \<and> AutoRestart opts = Some True \<and> MaxRestarts opts = None \<longrightarrow>
            logged (monitorProcess (Some e) t s) =
              logged s @ [Crashed (Name s) e, MaxRestartsIsNil (Name s)]) \<and>
         (options s = Some opts \<and> AutoRestart opts = Some True \<and> MaxRestarts opts = Some m \<and>
          RestartDelay opts = None \<longrightarrow>
            logged (monitorProcess (Some e) t s) =
              logged s @ [Crashed (Name s) e, RestartDelayIsNil (Name s)]) \<and>
         (options s = Some opts \<and> AutoRestart opts = Some True \<and> MaxRestarts opts = Some m \<and>
          RestartDelay opts = Some d \<and> m \<le> restarts s \<longrightarrow>
            logged (monitorProcess (Some e) t s) =
              logged s @ [Crashed (Name s) e, ExceededMaxRestarts (Name s) m]) \<and>
         (options s = Some opts \<and> AutoRestart opts = Some True \<and> MaxRestarts opts = Some m \<and>
          RestartDelay opts = Some d \<and> restarts s < m \<longrightarrow>
            logged (monitorProcess (Some e) t s) =
              logged s @ [Crashed (Name s) e, AutoRestarting (Name s) (restarts s + 1) m d]) \<and>
         nextPid (monitorProcess (Some e) t s) = nextPid s"
proof -
  have a: "sleepers (monitorProcess None t s) = sleepers s \<and>
         restarts (monitorProcess None t s) = restarts s \<and>
         restartCancel (monitorProcess None t s) = None \<and>
         nextPid (monitorProcess None t s) = nextPid s \<and>
         logged (monitorProcess None t s) = logged s @ [ExitedCleanly (Name s)]"
    using assms by (simp add: monitorProcess_clean)
  have b: "((sleepers (monitorProcess (Some e) t s) \<noteq> sleepers s) = restartAllowed s) \<and>
         (restartAllowed s \<longrightarrow>
            sleepers (monitorProcess (Some e) t s) = sleepers s @ [nextCtx s] \<and>
            restartCancel (monitorProcess (Some e) t s) = Some (nextCtx s) \<and>
            restarts (monitorProcess (Some e) t s) = restarts s + 1) \<and>
         (\<not> restartAllowed s \<longrightarrow>
            restartCancel (monitorProcess (Some e) t s) = None \<and>
            restarts (monitorProcess (Some e) t s) = restarts s)"
    using monitorProcess_crash [OF assms, of e t] by auto
  have c: "nextPid (monitorProcess (Some e) t s) = nextPid s"
    by (simp add: monitorProcess_frame)
  show ?thesis
    using a b c monitorProcess_crash_log [OF assms, where opts = opts and e = e and t = t
        and m = m and d = d] by blast
qed

theorem monitor_decision_witness:
  "Running demoRunning \<and> restartAllowed demoRunning \<and>
   sleepers (monitorProcess (Some ''exit status 1'') ''2025-01-01 10:01:00'' demoRunning) = [0] \<and>
   restarts (monitorProcess (Some ''exit status 1'') ''2025-01-01 10:01:00'' demoRunning) = 1 \<and>
   logged (monitorProcess (Some ''exit status 1'') ''2025-01-01 10:01:00'' demoRunning) =
     [Crashed ''small'' ''exit status 1'', AutoRestarting ''small'' 1 2 1] \<and>
   sleepers (monitorProcess None ''2025-01-01 10:01:00'' demoRunning) = [] \<and>
   logged (monitorProcess None ''2025-01-01 10:01:00'' demoRunning) = [ExitedCleanly ''small''] \<and>
   Running demoNoDelay \<and> \<not> restartAllowed demoNoDelay \<and>
   restarts (monitorProcess (Some ''exit status 1'') ''2025-01-01 10:01:00'' demoNoDelay) = 0 \<and>
   logged (monitorProcess (Some ''exit status 1'') ''2025-01-01 10:01:00'' demoNoDelay) =
     [Crashed ''small'' ''exit status 1'', RestartDelayIsNil ''small''] \<and>
   Running demoNoOptions \<and> options demoNoOptions = None \<and>
   logged (monitorProcess (Some ''exit status 1'') ''2025-01-01 10:01:00'' demoNoOptions) =
     [Crashed ''small'' ''exit status 1'', OptionsAreNil ''small''] \<and>
   Running demoNoAuto \<and>
   logged (monitorProcess (Some ''exit status 1'') ''2025-01-01 10:01:00'' demoNoAuto) =
     [Crashed ''small'' ''exit status 1'', AutoRestartDisabled ''small''] \<and>
   Running demoNoMax \<and>
   logged (monitorProcess (Some ''exit status 1'') ''2025-01-01 10:01:00'' demoNoMax) =
     [Crashed ''small'' ''exit status 1'', MaxRestartsIsNil ''small''] \<and>
   Running demoAtCap \<and> restarts demoAtCap = 2 \<and>
   logged (monitorProcess (Some ''exit status 1'') ''2025-01-01 10:01:00'' demoAtCap) =
     [Crashed ''small'' ''exit status 1'', ExceededMaxRestarts ''small'' 2]"
proof -
  have r: "Running demoRunning" "Running demoNoDelay" "Running demoNoOptions"
    "Running demoNoAuto" "Running demoNoMax" "Running demoAtCap"
    by code_simp+
  have a: "restartAllowed demoRunning" "\<not> restartAllowed demoNoDelay" by code_simp+
  have v: "sleepers demoRunning = []" "nextCtx demoRunning = 0" "restarts demoRunning = 0"
    "restarts demoNoDelay = 0" "restarts demoAtCap = 2" "logged demoRunning = []"
    "Name demoRunning = ''small''" "options demoRunning = Some demoOptions"
    by code_simp+
  have n: "logged demoNoDelay = []" "Name demoNoDelay = ''small''"
    "options demoNoDelay = Some (demoOptions\<lparr>RestartDelay := None\<rparr>)"
    by code_simp+
  have o: "logged (demoRunning\<lparr>options := None\<rparr>) = []"
    "logged (demoRunning\<lparr>restarts := 2\<rparr>) = []"
    by (simp_all add: v)
  have d: "AutoRestart demoOptions = Some True" "MaxRestarts demoOptions = Some 2"
    "RestartDelay demoOptions = Some 1"
    by (simp_all add: demoOptions_def)
  have 1: "sleepers (monitorProcess (Some ''exit status 1'') ''2025-01-01 10:01:00'' demoRunning) = [0] \<and>
     restarts (monitorProcess (Some ''exit status 1'') ''2025-01-01 10:01:00'' demoRunning) = 1 \<and>
     logged (monitorProcess (Some ''exit status 1'') ''2025-01-01 10:01:00'' demoRunning) =
       [Crashed ''small'' ''exit status 1'', AutoRestarting ''small'' 1 2 1] \<and>
     sleepers (monitorProcess None ''2025-01-01 10:01:00'' demoRunning) = [] \<and>
     logged (monitorProcess None ''2025-01-01 10:01:00'' demoRunning) = [ExitedCleanly ''small'']"
    using monitor_decision [OF r(1), where t = "''2025-01-01 10:01:00''"
        and e = "''exit status 1''" and opts = "demoOptions" and m = 2 and d = 1]
      a v d by simp
  have 2: "restarts (monitorProcess (Some ''exit status 1'') ''2025-01-01 10:01:00'' demoNoDelay) = 0 \<and>
     logged (monitorProcess (Some ''exit status 1'') ''2025-01-01 10:01:00'' demoNoDelay) =
       [Crashed ''small'' ''exit status 1'', RestartDelayIsNil ''small'']"
    using monitor_decision [OF r(2), where t = "''2025-01-01 10:01:00''"
        and e = "''exit status 1''" and opts = "demoOptions\<lparr>RestartDelay := None\<rparr>" and m = 2 and d = 1] a v n d by simp
  have 3: "logged (monitorProcess (Some ''exit status 1'') ''2025-01-01 10:01:00'' demoNoOptions) =
       [Crashed ''small'' ''exit status 1'', OptionsAreNil ''small'']"
    using monitor_decision [OF r(3), where t = "''2025-01-01 10:01:00''"
        and e = "''exit status 1''" and opts = "demoOptions" and m = 2 and d = 1]
      v o by (simp add: demoNoOptions_def)
  have 4: "logged (monitorProcess (Some ''exit status 1'') ''2025-01-01 10:01:00'' demoNoAuto) =
       [Crashed ''small'' ''exit status 1'', AutoRestartDisabled ''small'']"
    using monitor_decision [OF r(4), where t = "''2025-01-01 10:01:00''"
        and e = "''exit status 1''" and opts = "demoOptions\<lparr>AutoRestart := Some False\<rparr>" and m = 2 and d = 1] v
    by (simp add: demoNoAuto_def)
  have 5: "logged (monitorProcess (Some ''exit status 1'') ''2025-01-01 10:01:00'' demoNoMax) =
       [Crashed ''small'' ''exit status 1'', MaxRestartsIsNil ''small'']"
    using monitor_decision [OF r(5), where t = "''2025-01-01 10:01:00''"
        and e = "''exit status 1''" and opts = "demoOptions\<lparr>MaxRestarts := None\<rparr>" and m = 2 and d = 1] v d
    by (simp add: demoNoMax_def)
  have 6: "logged (monitorProcess (Some ''exit status 1'') ''2025-01-01 10:01:00'' demoAtCap) =
       [Crashed ''small'' ''exit status 1'', ExceededMaxRestarts ''small'' 2]"
    using monitor_decision [OF r(6), where t = "''2025-01-01 10:01:00''"
        and e = "''exit status 1''" and opts = "demoOptions" and m = 2 and d = 1]
      v d by (simp add: demoAtCap_def)
  have p: "options demoNoOptions = None" by (simp add: demoNoOptions_def)
  show ?thesis using r a v(5) p 1 2 3 4 5 6 by simp
qed

section \<open>Failures of Start\<close>

lemma Start_pipe_failure_closes_log:
  assumes "\<not> Running s" and "options s = Some opts" and "globalSettings s = Some g"
    and "openErr env = None" and "stdoutErr env = None" and "stderrErr env = Some e"
  shows "snd (Start env s) = Err (''failed to get stderr pipe: '' @ e) \<and>
         logFile (fst (Start env s)) = None \<and> stdout (fst (Start env s)) = Some False"
  using assms by (simp add: Start_def createLogFile_def Let_def)

text \<open>
  C5 fails on the code where \<open>cmd.Start\<close> fails. The log file was created and both
  pipes were obtained; \<open>Start\<close> returns the wrapped error with \<open>Running\<close> still false and
  schedules no restart, but it leaves \<open>logFile\<close> open: the field still holds the file
  and the file ends with the started marker, not followed by a stopped marker. (When a
  pipe cannot be obtained, the lemma above: the log file is closed.)
\<close>

theorem Start_spawn_failure_leaves_log_open:
  assumes "\<not> Running s" and "options s = Some opts" and "globalSettings s = Some g"
    and "openErr env = None" and "stdoutErr env = None" and "stderrErr env = None"
    and "spawnErr env = Some e"
  shows "snd (Start env s) = Err (''failed to start instance '' @ Name s @ '': '' @ e) \<and>
         \<not> Running (fst (Start env s)) \<and>
         logFile (fst (Start env s)) = Some (LogDirectory g @ ''/'' @ Name s @ ''.log'') \<and>
         files (fst (Start env s)) =
           fappend (LogDirectory g @ ''/'' @ Name s @ ''.log'') (startedMarker (Name s) (now env))
             (fcreate (LogDirectory g @ ''/'' @ Name s @ ''.log'') (files s)) \<and>
         sleepers (fst (Start env s)) = sleepers s \<and>
         restarts (fst (Start env s)) = restarts s"
  using assms by (simp add: Start_def createLogFile_def Let_def)

theorem Start_spawn_failure_leaves_log_open_witness:
  "\<not> Running demoInstance \<and>
   snd (Start noBinaryEnv demoInstance) =
     Err (''failed to start instance small: exec: '' @ [CHR 0x22] @ ''llama-server'' @
          [CHR 0x22] @ '': executable file not found in $PATH'') \<and>
   logFile (fst (Start noBinaryEnv demoInstance)) = Some ''/logs/small.log'' \<and>
   files (fst (Start noBinaryEnv demoInstance)) ''/logs/small.log'' =
     Some ([CHR 0x0A] @ ''=== Instance small started at 2025-01-01 10:00:00 ==='' @ [CHR 0x0A])"
proof -
  have h: "\<not> Running demoInstance" "options demoInstance = Some demoOptions"
    "globalSettings demoInstance = Some demoConfig" "openErr noBinaryEnv = None"
    "stdoutErr noBinaryEnv = None" "stderrErr noBinaryEnv = None"
    "spawnErr noBinaryEnv = Some (''exec: '' @ [CHR 0x22] @ ''llama-server'' @ [CHR 0x22] @
       '': executable file not found in $PATH'')"
    by (simp_all add: demoInstance_def noBinaryEnv_def okEnv_def)
  have n: "Name demoInstance = ''small''" "LogDirectory demoConfig = ''/logs''"
    "now noBinaryEnv = ''2025-01-01 10:00:00''" "files demoInstance = (\<lambda>path. None)"
    by (simp_all add: demoInstance_def demoConfig_def noBinaryEnv_def okEnv_def)
  show ?thesis
    using Start_spawn_failure_leaves_log_open [OF h] h(1)
    by (simp add: n fappend_def fcreate_def startedMarker_def NL_def)
qed

section \<open>Stop\<close>

text \<open>
  An instance that \<open>Start\<close> made running holds the cancel function and the command of
  its child, and no event of a run takes them away.
\<close>

lemma Start_live:
  "Running (fst (Start env s)) \<Longrightarrow> \<not> Running s \<Longrightarrow>
     cancel (fst (Start env s)) \<noteq> None \<and> cmd (fst (Start env s)) \<noteq> None \<and>
     logFile (fst (Start env s)) \<noteq> None \<and> snd (Start env s) = OK"
  by (auto simp: Start_def createLogFile_def Let_def split: option.splits)

lemma Start_handles:
  "Running s \<Longrightarrow> Start env s = (s, Err (''instance '' @ Name s @ '' is already running''))"
  by (simp add: Start_def)

lemma step_live:
  assumes "Running s \<longrightarrow> cancel s \<noteq> None \<and> cmd s \<noteq> None"
  shows "Running (step e s) \<longrightarrow> cancel (step e s) \<noteq> None \<and> cmd (step e s) \<noteq> None"
proof (cases e)
  case (OperatorStart env)
  then show ?thesis using assms Start_live [of env s] Start_handles [of s env]
    by (cases "Running s") auto
next
  case (OperatorStop t)
  then show ?thesis using assms
    by (auto simp: Stop_def Let_def split: option.splits)
next
  case (ChildExit child err t)
  have "\<not> Running (monitorProcess err t u) \<or> monitorProcess err t u = u" for u
    by (cases err) (auto simp: monitorProcess_def Let_def handleRestart_frame)
  from this [of "s\<lparr>monitors := remove1 child (monitors s)\<rparr>"] ChildExit assms
  show ?thesis by auto
next
  case (RestartSelect c b)
  then show ?thesis using assms by (simp add: restartSelect_frame)
next
  case (RestartStart c env)
  define u where "u = s\<lparr>starting := remove1 c (starting s)\<rparr>"
  have u: "Running u = Running s" "cancel u = cancel s" "cmd u = cmd s" by (simp_all add: u_def)
  obtain s1 r where st: "Start env u = (s1, r)" by (cases "Start env u")
  have a: "Running s1 \<longrightarrow> cancel s1 \<noteq> None \<and> cmd s1 \<noteq> None"
    using assms u Start_live [of env u] Start_handles [of u env] st
    by (cases "Running u") auto
  have "Running (restartStart env u) \<longrightarrow>
          cancel (restartStart env u) \<noteq> None \<and> cmd (restartStart env u) \<noteq> None"
    using a assms u by (auto simp: restartStart_def st split: outcome.splits)
  then show ?thesis using RestartStart assms by (auto simp: u_def)
next
  case RestartCleared
  then show ?thesis using assms by (simp add: restartClear_def)
qed

lemma run_live:
  "Running s \<longrightarrow> cancel s \<noteq> None \<and> cmd s \<noteq> None \<Longrightarrow>
     Running (run evs s) \<longrightarrow> cancel (run evs s) \<noteq> None \<and> cmd (run evs s) \<noteq> None"
proof (induction evs arbitrary: s)
  case Nil
  then show ?case by simp
next
  case (Cons e evs)
  show ?case using Cons.IH [OF step_live [OF Cons.prems, of e]] by simp
qed

lemma closeLogFile_files:
  "logFile s = Some path \<Longrightarrow> files s path = Some content \<Longrightarrow>
     files (closeLogFile t s) path = Some (content @ stoppedMarker (Name s) t)"
  by (simp add: closeLogFile_def fappend_def)

text \<open>
  C6 fails on the code. In the run \<open>demoLostCancel\<close> the instance is not running, the
  goroutine of the second restart waits in its \<open>select\<close>, its context is not cancelled,
  and \<open>restartCancel\<close> is nil, because the goroutine of the first restart cleared it
  after the second one had installed its own. \<open>Stop\<close> returns the error "is not running"
  and cancels nothing: the context is still not cancelled and the goroutine still
  waits. When its timer fires, it starts a third child and the instance runs again.
  A second failure: on the instance that \<open>UnmarshalJSON\<close> loaded with \<open>Running\<close> true,
  \<open>Stop\<close> panics on the nil cancel function instead of stopping anything.
\<close>

theorem Stop_misses_pending_restart:
  "\<not> Running (run demoLostCancel demoInstance) \<and>
   restartCancel (run demoLostCancel demoInstance) = None \<and>
   sleepers (run demoLostCancel demoInstance) = [1] \<and>
   1 \<notin> cancelled (run demoLostCancel demoInstance) \<and>
   snd (Stop ''2025-01-01 10:02:01'' (run demoLostCancel demoInstance)) =
     Err ''instance small is not running'' \<and>
   1 \<notin> cancelled (fst (Stop ''2025-01-01 10:02:01'' (run demoLostCancel demoInstance))) \<and>
   sleepers (fst (Stop ''2025-01-01 10:02:01'' (run demoLostCancel demoInstance))) = [1] \<and>
   nextPid (run demoLostCancel demoInstance) = 2 \<and>
   Running (run demoLostCancelStopped demoInstance) \<and>
   nextPid (run demoLostCancelStopped demoInstance) = 3 \<and>
   logged (run demoLostCancelStopped demoInstance) =
     [Crashed ''small'' ''exit status 1'', AutoRestarting ''small'' 1 2 1,
      SuccessfullyRestarted ''small'', Crashed ''small'' ''exit status 1'',
      AutoRestarting ''small'' 2 2 1, SuccessfullyRestarted ''small''] \<and>
   Running demoLoaded \<and> cancel demoLoaded = None \<and>
   snd (Stop ''2025-01-01 10:02:01'' demoLoaded) = Panic"
  by code_simp

text \<open>
  X3. What does hold of \<open>Stop\<close> taken alone. On an instance that is not running it
  returns the error "is not running", calls the cancel function that the instance holds
  in \<open>restartCancel\<close>, when it holds one, and forgets it, and changes nothing else:
  putting back the three fields \<open>cancelled\<close>, \<open>restartCancel\<close> and \<open>logged\<close> gives the
  instance it started from. On a running instance that holds the cancel function and
  the command of its child (as every instance that \<open>Start\<close> made running does, see
  \<open>run_live\<close>) it succeeds, clears the cached proxy, sets \<open>Running\<close> to false, calls the
  cancel function of a restart it holds, and closes the log file after appending the
  line \<open>=== Instance <name> stopped at <time> ===\<close> and an empty line to it.
\<close>

theorem Stop_effects:
  "(\<not> Running s \<longrightarrow>
      snd (Stop t s) = Err (''instance '' @ Name s @ '' is not running'') \<and>
      restartCancel (fst (Stop t s)) = None \<and>
      (\<forall>c. restartCancel s = Some c \<longrightarrow> c \<in> cancelled (fst (Stop t s))) \<and>
      (fst (Stop t s))\<lparr>cancelled := cancelled s, restartCancel := restartCancel s,
                        logged := logged s\<rparr> = s) \<and>
   (Running s \<and> cancel s \<noteq> None \<and> cmd s \<noteq> None \<longrightarrow>
      snd (Stop t s) = OK \<and>
      proxy (fst (Stop t s)) = None \<and>
      \<not> Running (fst (Stop t s)) \<and>
      logFile (fst (Stop t s)) = None \<and>
      restartCancel (fst (Stop t s)) = None \<and>
      (\<forall>c. restartCancel s = Some c \<longrightarrow> c \<in> cancelled (fst (Stop t s))) \<and>
      (\<forall>path content. logFile s = Some path \<and> files s path = Some content \<longrightarrow>
         files (fst (Stop t s)) path =
           Some (content @ ''=== Instance '' @ Name s @ '' stopped at '' @ t @ '' ==='' @
                 [CHR 0x0A, CHR 0x0A])))"
proof (cases "Running s")
  case False
  then show ?thesis
    by (cases "restartCancel s") (simp_all add: Stop_def cancelRestart_def)
next
  case True
  show ?thesis
  proof (cases "cancel s \<noteq> None \<and> cmd s \<noteq> None")
    case False
    with True show ?thesis by auto
  next
    case live: True
    then obtain k p where kp: "cancel s = Some k" "cmd s = Some p" by auto
    define u where "u = (cancelRestart s)\<lparr>killed := insert k (killed (cancelRestart s)),
      proxy := None, Running := False\<rparr>"
    have st: "Stop t s = (closeLogFile t u, OK)"
      using True kp by (simp add: Stop_def Let_def u_def)
    have u: "logFile u = logFile s" "files u = files s" "Name u = Name s"
      "cancelled u = cancelled (cancelRestart s)" "proxy u = None" "\<not> Running u"
      "restartCancel u = None"
      by (simp_all add: u_def)
    have f: "\<And>path content. logFile s = Some path \<Longrightarrow> files s path = Some content \<Longrightarrow>
        files (closeLogFile t u) path = Some (content @ stoppedMarker (Name s) t)"
      using closeLogFile_files [of u _ _ t] u by simp
    show ?thesis
      using True st u f by (auto simp: cancelRestart_cancelled stoppedMarker_def NL_def)
  qed
qed

theorem Stop_effects_witness:
  "\<not> Running demoPending \<and> restartCancel demoPending = Some 0 \<and>
   snd (Stop ''2025-01-01 10:05:00'' demoPending) = Err ''instance small is not running'' \<and>
   0 \<in> cancelled (fst (Stop ''2025-01-01 10:05:00'' demoPending)) \<and>
   restartCancel (fst (Stop ''2025-01-01 10:05:00'' demoPending)) = None \<and>
   Running demoRunning \<and> cancel demoRunning \<noteq> None \<and> cmd demoRunning \<noteq> None \<and>
   snd (Stop ''2025-01-01 10:05:00'' demoRunning) = OK \<and>
   \<not> Running (fst (Stop ''2025-01-01 10:05:00'' demoRunning)) \<and>
   logFile (fst (Stop ''2025-01-01 10:05:00'' demoRunning)) = None \<and>
   files (fst (Stop ''2025-01-01 10:05:00'' demoRunning)) ''/logs/small.log'' =
     Some ([CHR 0x0A] @ ''=== Instance small started at 2025-01-01 10:00:00 ==='' @
           [CHR 0x0A] @ ''=== Instance small stopped at 2025-01-01 10:05:00 ==='' @
           [CHR 0x0A, CHR 0x0A])"
proof -
  have p: "\<not> Running demoPending" "restartCancel demoPending = Some 0" by code_simp+
  have r: "Running demoRunning" "cancel demoRunning \<noteq> None" "cmd demoRunning \<noteq> None"
    "logFile demoRunning = Some ''/logs/small.log''" "Name demoRunning = ''small''"
    "Name demoPending = ''small''"
    "files demoRunning ''/logs/small.log'' =
       Some ([CHR 0x0A] @ ''=== Instance small started at 2025-01-01 10:00:00 ==='' @ [CHR 0x0A])"
    by code_simp+
  show ?thesis
    using Stop_effects [of demoPending "''2025-01-01 10:05:00''"]
      Stop_effects [of demoRunning "''2025-01-01 10:05:00''"] p r
    by simp
qed

text \<open>
  C7 fails on the code. The operator stops the running sample instance (\<open>Stop\<close> returns
  success) and starts it again before the monitor of the stopped child has taken the
  lock. That monitor then finds \<open>Running\<close> true, takes the exit of the killed child for
  a crash, increments the counter and schedules a restart; when the timer of the restart
  goroutine fires, its \<open>Start\<close> succeeds, since the monitor has set \<open>Running\<close> to false.
  Three children have been spawned, and the second and the third are both alive.
\<close>

theorem Stop_then_Start_race:
  "snd (Stop ''2025-01-01 10:05:00'' demoRunning) = OK \<and>
   \<not> Running (run (take 2 demoRace) demoInstance) \<and>
   monitors (run (take 2 demoRace) demoInstance) = [0] \<and>
   0 \<in> killed (run (take 2 demoRace) demoInstance) \<and>
   Running (run (take 3 demoRace) demoInstance) \<and>
   cmd (run (take 3 demoRace) demoInstance) = Some 1 \<and>
   \<not> Running (run (take 4 demoRace) demoInstance) \<and>
   sleepers (run (take 4 demoRace) demoInstance) = [0] \<and>
   restarts (run (take 4 demoRace) demoInstance) = 1 \<and>
   0 \<notin> cancelled (run (take 4 demoRace) demoInstance) \<and>
   Running (run demoRace demoInstance) \<and>
   nextPid (run demoRace demoInstance) = 3 \<and>
   monitors (run demoRace demoInstance) = [1, 2] \<and>
   logged (run demoRace demoInstance) =
     [Crashed ''small'' ''signal: killed'', AutoRestarting ''small'' 1 2 1,
      SuccessfullyRestarted ''small'']"
  by code_simp

lemma step_cancelled: "c \<in> cancelled s \<Longrightarrow> c \<in> cancelled (step e s)"
proof (cases e)
  case (OperatorStop t)
  then show "c \<in> cancelled s \<Longrightarrow> c \<in> cancelled (step e s)"
    by (auto simp: Stop_def Let_def cancelRestart_cancelled split: option.splits)
next
  case (ChildExit child err t)
  assume c: "c \<in> cancelled s"
  have "cancelled (monitorProcess err t u) = cancelled u \<or>
        (\<exists>k. cancelled (monitorProcess err t u) = insert k (cancelled u))" for u
    by (cases err) (auto simp: monitorProcess_def Let_def handleRestart_frame
        cancelRestart_cancelled split: option.splits)
  from this [of "s\<lparr>monitors := remove1 child (monitors s)\<rparr>"] c ChildExit
  show "c \<in> cancelled (step e s)" by auto
qed (simp_all add: Start_frame restartSelect_frame restartStart_frame restartClear_def)

lemma run_cancelled: "c \<in> cancelled s \<Longrightarrow> c \<in> cancelled (run evs s)"
  by (induction evs arbitrary: s) (simp_all add: step_cancelled)

text \<open>
  X2. What does hold of the cancellation: once \<open>Stop\<close> has called the cancel function the
  instance held, the restart context stays cancelled whatever happens later, so the
  \<open>Done\<close> case of the goroutine waiting on it stays open, and when the goroutine takes
  it, it only logs that the restart was cancelled and ends: no child, no change of the
  counter. \<open>Stop\<close> leaves the counter as it is, and a monitor that takes the lock right
  after a successful \<open>Stop\<close> finds \<open>Running\<close> false and changes nothing.
\<close>

theorem Stop_cancels_for_good:
  assumes "restartCancel s = Some c"
  shows "c \<in> cancelled (run evs (fst (Stop t s))) \<and>
         restarts (fst (Stop t s)) = restarts s \<and>
         (c \<in> set (sleepers (run evs (fst (Stop t s)))) \<longrightarrow>
            step (RestartSelect c DoneCase) (run evs (fst (Stop t s))) =
              (run evs (fst (Stop t s)))
                \<lparr>sleepers := remove1 c (sleepers (run evs (fst (Stop t s)))),
                 logged := logged (run evs (fst (Stop t s))) @
                   [RestartCancelled (Name (run evs (fst (Stop t s))))]\<rparr>) \<and>
         (Running s \<and> snd (Stop t s) = OK \<longrightarrow>
            monitorProcess err t' (fst (Stop t s)) = fst (Stop t s))"
proof -
  have c: "c \<in> cancelled (fst (Stop t s))"
    using assms by (auto simp: Stop_def Let_def cancelRestart_cancelled split: option.splits)
  have r: "c \<in> cancelled (run evs (fst (Stop t s)))" by (rule run_cancelled [OF c])
  have m: "Running s \<Longrightarrow> snd (Stop t s) = OK \<Longrightarrow> \<not> Running (fst (Stop t s))"
    by (auto simp: Stop_def Let_def split: option.splits)
  show ?thesis
    using r m by (auto simp: restartSelect_def Stop_frame monitorProcess_idle)
qed

theorem Stop_cancels_for_good_witness:
  "restartCancel demoPending = Some 0 \<and>
   sleepers (fst (Stop ''2025-01-01 10:05:00'' demoPending)) = [0] \<and>
   0 \<in> cancelled (run [OperatorStart okEnv] (fst (Stop ''2025-01-01 10:05:00'' demoPending))) \<and>
   nextPid (step (RestartSelect 0 DoneCase) (fst (Stop ''2025-01-01 10:05:00'' demoPending))) = 1 \<and>
   sleepers (step (RestartSelect 0 DoneCase) (fst (Stop ''2025-01-01 10:05:00'' demoPending))) = [] \<and>
   restarts (fst (Stop ''2025-01-01 10:05:00'' demoPending)) = 1"
proof -
  have p: "restartCancel demoPending = Some 0" by code_simp
  have n: "nextPid (fst (Stop ''2025-01-01 10:05:00'' demoPending)) = 1"
    "restarts demoPending = 1" "sleepers (fst (Stop ''2025-01-01 10:05:00'' demoPending)) = [0]"
    by code_simp+
  have a: "0 \<in> cancelled (run [OperatorStart okEnv] (fst (Stop ''2025-01-01 10:05:00'' demoPending)))"
    using Stop_cancels_for_good [OF p, where evs = "[OperatorStart okEnv]"
        and t = "''2025-01-01 10:05:00''" and err = None and t' = "[]"] by blast
  have b: "step (RestartSelect 0 DoneCase) (fst (Stop ''2025-01-01 10:05:00'' demoPending)) =
      (fst (Stop ''2025-01-01 10:05:00'' demoPending))
        \<lparr>sleepers := remove1 0 (sleepers (fst (Stop ''2025-01-01 10:05:00'' demoPending))),
         logged := logged (fst (Stop ''2025-01-01 10:05:00'' demoPending)) @
           [RestartCancelled (Name (fst (Stop ''2025-01-01 10:05:00'' demoPending)))]\<rparr>"
    and c: "restarts (fst (Stop ''2025-01-01 10:05:00'' demoPending)) = restarts demoPending"
    using Stop_cancels_for_good [OF p, where evs = "[]" and t = "''2025-01-01 10:05:00''"
        and err = None and t' = "[]"] n(3)
    by auto
  show ?thesis unfolding b using p n a c by simp
qed

section \<open>Reverse proxy\<close>

text \<open>
  C8. Without a cached proxy, \<open>GetProxy\<close> fails when the options are nil; otherwise,
  when the URL parses, it builds the proxy for exactly \<open>http://host:port\<close> of the
  options and caches it. With a cached proxy it returns that one and changes nothing.
  \<open>SetOptions\<close> with options that are not nil clears the cache, so the next \<open>GetProxy\<close>
  targets the host and port of the new options.
\<close>

theorem GetProxy_targets_options:
  "(proxy s = None \<and> options s = None \<longrightarrow>
      GetProxy urlParse s = (s, Inl (''instance '' @ Name s @ '' has no options set''))) \<and>
   (proxy s = None \<and> options s = Some opts \<and>
    urlParse (''http://'' @ Host (Llama opts) @ '':'' @ itoa (Port (Llama opts))) = None \<longrightarrow>
      GetProxy urlParse s =
        (s\<lparr>proxy := Some (''http://'' @ Host (Llama opts) @ '':'' @ itoa (Port (Llama opts)))\<rparr>,
         Inr (''http://'' @ Host (Llama opts) @ '':'' @ itoa (Port (Llama opts))))) \<and>
   (proxy s = Some p \<longrightarrow> GetProxy urlParse s = (s, Inr p)) \<and>
   proxy (SetOptions (Some new) s) = None \<and>
   (urlParse (''http://'' @ Host (Llama new) @ '':'' @ itoa (Port (Llama new))) = None \<longrightarrow>
      snd (GetProxy urlParse (SetOptions (Some new) s)) =
        Inr (''http://'' @ Host (Llama new) @ '':'' @ itoa (Port (Llama new))) \<and>
      proxy (fst (GetProxy urlParse (SetOptions (Some new) s))) =
        Some (''http://'' @ Host (Llama new) @ '':'' @ itoa (Port (Llama new))))"
proof -
  have a: "proxy (SetOptions (Some new) s) = None"
    by (simp add: SetOptions_def Let_def)
  have b: "options (SetOptions (Some new) s) = Some new" by (rule SetOptions_stores)
  show ?thesis
    using a b by (simp add: GetProxy_def Let_def)
qed

theorem GetProxy_targets_options_witness:
  "proxy demoInstance = None \<and> options demoInstance = Some demoOptions \<and>
   snd (GetProxy (\<lambda>u. None) demoInstance) = Inr ''http://127.0.0.1:18001'' \<and>
   proxy (fst (GetProxy (\<lambda>u. None) demoInstance)) = Some ''http://127.0.0.1:18001'' \<and>
   snd (GetProxy (\<lambda>u. None)
          (SetOptions (Some (demoOptions\<lparr>Llama := \<lparr>Host = ''localhost'', Port = 9090\<rparr>\<rparr>))
             (fst (GetProxy (\<lambda>u. None) demoInstance)))) = Inr ''http://localhost:9090''"
proof -
  have h: "proxy demoInstance = None" "options demoInstance = Some demoOptions"
    by (simp_all add: demoInstance_def)
  have i: "itoa 18001 = ''18001''" "itoa 9090 = ''9090''"
    by (simp_all add: itoa_def utoa.simps)
  have o: "Host (Llama demoOptions) = ''127.0.0.1''" "Port (Llama demoOptions) = 18001"
    by (simp_all add: demoOptions_def)
  have g: "GetProxy (\<lambda>u. None) demoInstance =
        (demoInstance\<lparr>proxy := Some ''http://127.0.0.1:18001''\<rparr>, Inr ''http://127.0.0.1:18001'')"
    using GetProxy_targets_options [of demoInstance "\<lambda>u. None" demoOptions "[]" demoOptions] h
    by (simp add: i o)
  have n: "snd (GetProxy (\<lambda>u. None)
          (SetOptions (Some (demoOptions\<lparr>Llama := \<lparr>Host = ''localhost'', Port = 9090\<rparr>\<rparr>))
             (fst (GetProxy (\<lambda>u. None) demoInstance)))) = Inr ''http://localhost:9090''"
    using GetProxy_targets_options [of "fst (GetProxy (\<lambda>u. None) demoInstance)" "\<lambda>u. None" demoOptions "[]"
         "demoOptions\<lparr>Llama := \<lparr>Host = ''localhost'', Port = 9090\<rparr>\<rparr>"]
    by (simp add: i)
  show ?thesis using h g n by simp
qed

section \<open>Logs\<close>

lemma linesOf_unfold:
  "data \<noteq> [] \<Longrightarrow>
     linesOf data = takeWhile (\<lambda>c. c \<noteq> NL) data #
                    linesOf (drop 1 (dropWhile (\<lambda>c. c \<noteq> NL) data))"
proof (induction data)
  case Nil
  then show ?case by simp
next
  case (Cons c cs)
  show ?case
  proof (cases "c = NL")
    case True
    then show ?thesis by simp
  next
    case False
    show ?thesis
    proof (cases "cs = []")
      case True
      with False show ?thesis by simp
    next
      case ne: False
      with False Cons.IH show ?thesis by simp
    qed
  qed
qed

lemma scanLines_short:
  "\<forall>l \<in> set (linesOf data). length l < MaxScanTokenSize \<Longrightarrow>
     scanLines data = Inr (map dropCR (linesOf data))"
proof (induction data rule: scanLines.induct)
  case (1 data)
  show ?case
  proof (cases "data = []")
    case True
    then show ?thesis by (subst scanLines.simps) simp
  next
    case False
    let ?line = "takeWhile (\<lambda>c. c \<noteq> NL) data"
    let ?rest = "drop 1 (dropWhile (\<lambda>c. c \<noteq> NL) data)"
    have u: "linesOf data = ?line # linesOf ?rest" by (rule linesOf_unfold [OF False])
    have short: "\<not> MaxScanTokenSize \<le> length ?line" using "1.prems" u by simp
    have rest: "\<forall>l \<in> set (linesOf ?rest). length l < MaxScanTokenSize"
      using "1.prems" u by simp
    have ih: "scanLines ?rest = Inr (map dropCR (linesOf ?rest))"
      by (rule "1.IH" [OF False short rest])
    show ?thesis
      using ih by (subst scanLines.simps) (simp add: False short u)
  qed
qed

lemma scanLines_long:
  "\<exists>l \<in> set (linesOf data). MaxScanTokenSize \<le> length l \<Longrightarrow>
     scanLines data = Inl ''bufio.Scanner: token too long''"
proof (induction data rule: scanLines.induct)
  case (1 data)
  show ?case
  proof (cases "data = []")
    case True
    with "1.prems" show ?thesis by simp
  next
    case False
    let ?line = "takeWhile (\<lambda>c. c \<noteq> NL) data"
    let ?rest = "drop 1 (dropWhile (\<lambda>c. c \<noteq> NL) data)"
    have u: "linesOf data = ?line # linesOf ?rest" by (rule linesOf_unfold [OF False])
    show ?thesis
    proof (cases "MaxScanTokenSize \<le> length ?line")
      case True
      then show ?thesis by (subst scanLines.simps) (simp add: False)
    next
      case short: False
      then have "\<exists>l \<in> set (linesOf ?rest). MaxScanTokenSize \<le> length l"
        using "1.prems" u by auto
      then have ih: "scanLines ?rest = Inl ''bufio.Scanner: token too long''"
        by (rule "1.IH" [OF False short])
      show ?thesis
        using ih by (subst scanLines.simps) (simp add: False short)
    qed
  qed
qed

lemma linesOf_concat:
  "concat (map (\<lambda>l. l @ [NL]) (linesOf data)) =
     (if data = [] \<or> last data = NL then data else data @ [NL])"
proof (induction data)
  case Nil
  show ?case by simp
next
  case (Cons c cs)
  show ?case
  proof (cases "c = NL")
    case True
    with Cons.IH show ?thesis by (cases "cs = []") auto
  next
    case False
    show ?thesis
    proof (cases "linesOf cs")
      case Nil
      then have "cs = []" by (cases cs) (auto split: if_splits list.splits)
      with False show ?thesis by simp
    next
      case (Cons l ls)
      then have "cs \<noteq> []" by auto
      with Cons False Cons.IH show ?thesis by auto
    qed
  qed
qed

lemma Join_concat: "ls \<noteq> [] \<Longrightarrow> Join ls sep @ sep = concat (map (\<lambda>l. l @ sep) ls)"
  by (induction ls sep rule: Join.induct) simp_all

lemma linesOf_chars: "l \<in> set (linesOf data) \<Longrightarrow> set l \<subseteq> set data"
proof (induction data arbitrary: l)
  case Nil
  then show ?case by simp
next
  case (Cons c cs)
  show ?case
  proof (cases "c = NL")
    case True
    then have "l = [] \<or> l \<in> set (linesOf cs)" using Cons.prems by simp
    then show ?thesis using Cons.IH [of l] by auto
  next
    case False
    show ?thesis
    proof (cases "linesOf cs")
      case Nil
      with False Cons.prems show ?thesis by simp
    next
      case inner: (Cons a list)
      have a: "set a \<subseteq> set cs" using Cons.IH [of a] inner by simp
      have "l = c # a \<or> l \<in> set list" using Cons.prems False inner by simp
      then show ?thesis
      proof
        assume "l = c # a"
        with a show ?thesis by auto
      next
        assume "l \<in> set list"
        then have "set l \<subseteq> set cs" using Cons.IH [of l] inner by simp
        then show ?thesis by auto
      qed
    qed
  qed
qed

lemma dropCR_id: "CHR 0x0D \<notin> set l \<Longrightarrow> dropCR l = l"
  by (cases l rule: rev_cases) (auto simp: dropCR_def)

lemma lastN_all: "length xs \<le> n \<Longrightarrow> lastN n xs = xs"
  by (simp add: lastN_def)

lemma GetLogs_start: "0 < n \<Longrightarrow> nat (max (int (length ls) - n) 0) = length ls - nat n"
  by auto

lemma scanLines_longLine:
  "scanLines (longLine @ NL # rest) = Inl ''bufio.Scanner: token too long''"
proof -
  have "takeWhile (\<lambda>c. c \<noteq> NL) (longLine @ NL # rest) =
          longLine @ takeWhile (\<lambda>c. c \<noteq> NL) (NL # rest)"
    by (rule takeWhile_append2) (simp add: longLine_def NL_def)
  then have t: "takeWhile (\<lambda>c. c \<noteq> NL) (longLine @ NL # rest) = longLine"
    by simp
  have l: "length longLine = MaxScanTokenSize" by (simp add: longLine_def)
  show ?thesis
    by (subst scanLines.simps) (simp add: t l)
qed

text \<open>
  C9, as the claim states it, fails. The log file of the sample instance existed
  before and holds one line of 65536 bytes, then the started marker. \<open>GetLogs(1)\<close> does
  not return the last line: the scanner gives up on the long line and \<open>GetLogs\<close> returns
  an error.
\<close>

theorem GetLogs_long_line_counterexample:
  "logFile demoLongLog = Some ''/logs/small.log'' \<and>
   files demoLongLog ''/logs/small.log'' =
     Some (longLine @ startedMarker ''small'' ''2025-01-01 10:00:00'') \<and>
   GetLogs 1 demoLongLog = Inl ''error reading file: bufio.Scanner: token too long''"
proof -
  have a: "logFile demoLongLog = Some ''/logs/small.log''"
    by (simp add: demoLongLog_def Start_def createLogFile_def okEnv_def demoInstance_def
        demoConfig_def demoOptions_def Let_def)
  have b: "files demoLongLog ''/logs/small.log'' =
     Some (longLine @ startedMarker ''small'' ''2025-01-01 10:00:00'')"
    by (simp add: demoLongLog_def Start_def createLogFile_def okEnv_def demoInstance_def
        demoConfig_def demoOptions_def Let_def fappend_def fcreate_def)
  have c: "scanLines (longLine @ startedMarker ''small'' ''2025-01-01 10:00:00'') =
      Inl ''bufio.Scanner: token too long''"
    unfolding startedMarker_def append_Cons append_Nil by (rule scanLines_longLine)
  show ?thesis using a b c by (simp add: GetLogs_def)
qed

text \<open>
  C9, amended. The instance has an open log file, which exists. For \<open>n \<le> 0\<close>,
  \<open>GetLogs(n)\<close> returns the content of the file. For \<open>n > 0\<close>, when every line of the file
  is shorter than 65536 bytes, it returns the last \<open>n\<close> lines (all of them when there are
  at most \<open>n\<close>), each without its trailing carriage return, joined by newlines and
  without a final newline; when some line has 65536 bytes or more, it returns an error.
  In particular, for a file without carriage returns that ends with a newline and has
  at most \<open>n\<close> lines, the result is the file without its final newline.
\<close>

theorem GetLogs_last_lines:
  assumes "logFile s = Some path" and "path \<noteq> []" and "files s path = Some content"
  shows "(n \<le> 0 \<longrightarrow> GetLogs n s = Inr content) \<and>
         (0 < n \<and> (\<forall>l \<in> set (linesOf content). length l < MaxScanTokenSize) \<longrightarrow>
            GetLogs n s = Inr (Join (lastN (nat n) (map dropCR (linesOf content))) [NL])) \<and>
         (0 < n \<and> (\<exists>l \<in> set (linesOf content). MaxScanTokenSize \<le> length l) \<longrightarrow>
            GetLogs n s = Inl ''error reading file: bufio.Scanner: token too long'') \<and>
         (0 < n \<and> (\<forall>l \<in> set (linesOf content). length l < MaxScanTokenSize) \<and>
          length (linesOf content) \<le> nat n \<and> CHR 0x0D \<notin> set content \<and>
          content \<noteq> [] \<and> last content = NL \<longrightarrow>
            GetLogs n s = Inr (butlast content))"
proof -
  have whole: "n \<le> 0 \<Longrightarrow> GetLogs n s = Inr content"
    using assms by (simp add: GetLogs_def)
  have short: "GetLogs n s = Inr (Join (lastN (nat n) (map dropCR (linesOf content))) [NL])"
    if n: "0 < n" and s: "\<forall>l \<in> set (linesOf content). length l < MaxScanTokenSize"
  proof -
    have sc: "scanLines content = Inr (map dropCR (linesOf content))"
      by (rule scanLines_short [OF s])
    show ?thesis
      using assms n by (simp add: GetLogs_def sc Let_def lastN_def GetLogs_start)
  qed
  have long: "GetLogs n s = Inl ''error reading file: bufio.Scanner: token too long''"
    if n: "0 < n" and l: "\<exists>l \<in> set (linesOf content). MaxScanTokenSize \<le> length l"
  proof -
    have sc: "scanLines content = Inl ''bufio.Scanner: token too long''"
      by (rule scanLines_long [OF l])
    show ?thesis using assms n by (simp add: GetLogs_def sc)
  qed
  have all: "GetLogs n s = Inr (butlast content)"
    if n: "0 < n" and s: "\<forall>l \<in> set (linesOf content). length l < MaxScanTokenSize"
      and few: "length (linesOf content) \<le> nat n" and cr: "CHR 0x0D \<notin> set content"
      and ne: "content \<noteq> []" and nl: "last content = NL"
  proof -
    have "\<And>l. l \<in> set (linesOf content) \<Longrightarrow> dropCR l = l"
      using linesOf_chars cr dropCR_id by blast
    then have m: "map dropCR (linesOf content) = linesOf content"
      by (simp add: map_idI)
    have lne: "linesOf content \<noteq> []" using ne by (cases content) (auto split: list.splits)
    have "Join (linesOf content) [NL] @ [NL] = content"
      using Join_concat [OF lne, of "[NL]"] linesOf_concat [of content] ne nl by simp
    then have j: "Join (linesOf content) [NL] = butlast content"
      by (metis butlast_snoc)
    show ?thesis
      using short [OF n s] few by (simp add: m lastN_all j)
  qed
  show ?thesis using whole short long all by blast
qed

theorem GetLogs_last_lines_witness:
  "logFile demoRunning = Some ''/logs/small.log'' \<and>
   files demoRunning ''/logs/small.log'' = Some (startedMarker ''small'' ''2025-01-01 10:00:00'') \<and>
   GetLogs 0 demoRunning = Inr (startedMarker ''small'' ''2025-01-01 10:00:00'') \<and>
   GetLogs 1 demoRunning = Inr ''=== Instance small started at 2025-01-01 10:00:00 ==='' \<and>
   GetLogs 5 demoRunning = Inr (butlast (startedMarker ''small'' ''2025-01-01 10:00:00''))"
proof -
  have a: "logFile demoRunning = Some ''/logs/small.log''"
    by (simp add: demoRunning_def Start_def createLogFile_def okEnv_def demoInstance_def
        demoConfig_def demoOptions_def Let_def)
  have b: "files demoRunning ''/logs/small.log'' =
     Some (startedMarker ''small'' ''2025-01-01 10:00:00'')"
    by (simp add: demoRunning_def Start_def createLogFile_def okEnv_def demoInstance_def
        demoConfig_def demoOptions_def Let_def fappend_def fcreate_def)
  have p: "''/logs/small.log'' \<noteq> []" by simp
  have l: "linesOf (startedMarker ''small'' ''2025-01-01 10:00:00'') =
      [[], ''=== Instance small started at 2025-01-01 10:00:00 ==='']"
    by (simp add: startedMarker_def NL_def)
  have s: "\<forall>l \<in> set (linesOf (startedMarker ''small'' ''2025-01-01 10:00:00'')).
      length l < MaxScanTokenSize"
    by (simp add: l MaxScanTokenSize_def)
  have d: "dropCR ''=== Instance small started at 2025-01-01 10:00:00 ==='' =
      ''=== Instance small started at 2025-01-01 10:00:00 ===''" "dropCR [] = []"
    by (simp_all add: dropCR_def)
  have bl: "butlast (startedMarker ''small'' ''2025-01-01 10:00:00'') =
      NL # ''=== Instance small started at 2025-01-01 10:00:00 ===''"
    by (simp add: startedMarker_def)
  have c: "CHR 0x0D \<notin> set (startedMarker ''small'' ''2025-01-01 10:00:00'')"
    "startedMarker ''small'' ''2025-01-01 10:00:00'' \<noteq> []"
    "last (startedMarker ''small'' ''2025-01-01 10:00:00'') = NL"
    by (simp_all add: startedMarker_def NL_def)
  show ?thesis
    using GetLogs_last_lines [OF a p b, of 0] GetLogs_last_lines [OF a p b, of 1]
      GetLogs_last_lines [OF a p b, of 5] a b s c
    by (simp add: l d lastN_def bl)
qed

end
